theory Spec2Isabelle
  imports Complex_Main "HOL-Library.Multiset"
begin

section \<open>Numbers\<close>

text \<open>
  The program computes with C++ \<^verbatim>\<open>double\<close>. The embedding has two readings of it.

  In the \<^emph>\<open>exact reading\<close> a finite double is a real number and arithmetic is done on
  the reals: rounding, overflow, underflow and signed zeros are not modelled. What a
  real number cannot hold is made explicit:
  \<^item> \<open>dbl\<close> is a double that is compared with others: a real, an infinity, or NaN.
    The distances of the intersection code have this type, since the program stores
    \<^verbatim>\<open>std::numeric_limits<double>::infinity()\<close> in them and divides by a number that
    can be zero;
  \<^item> every other value is a real, and a function that would divide by zero, or do
    arithmetic on an infinite or NaN double, or index a vector out of range, returns
    \<open>Inl\<close> of an \<open>error\<close> in the model.

  The exact reading is the one of the sections up to the render modes, and of the
  claims about the closest hit, the shadow query, the roots, the camera rays and the
  colours. It says nothing of an input whose squares leave the range of a double.

  In the \<^emph>\<open>range reading\<close> (section \<open>Doubles with their range\<close>) every number is a
  \<open>dbl\<close> and every operation gives the IEEE 754 result for infinities, NaN, overflow
  and underflow to zero; only the rounding of a result that stays inside the range is
  left out. \<open>Vec3::normalize\<close>, the \<open>Ray\<close> constructor, \<open>Sphere::intersect\<close> and
  \<open>Scene::intersect\<close> are embedded a second time in this reading, and the claims about
  normalization, the direction of a ray and the result of the scene query are settled
  there. Where no square underflows and no sum of squares overflows the two readings
  of \<open>length\<close> and \<open>normalize\<close> agree (\<open>length_fp_in_range\<close>, \<open>normalize_fp_in_range\<close>).
\<close>

datatype error = NonFinite | OutOfBounds

datatype dbl = Fin real | PInf | NInf | NaN

text \<open>The IEEE comparisons \<^verbatim>\<open><=\<close> and \<^verbatim>\<open><\<close>: false as soon as an operand is NaN.\<close>

fun dbl_le :: "dbl \<Rightarrow> dbl \<Rightarrow> bool" where
  "dbl_le NaN _ = False"
| "dbl_le _ NaN = False"
| "dbl_le NInf _ = True"
| "dbl_le _ PInf = True"
| "dbl_le (Fin a) (Fin b) = (a \<le> b)"
| "dbl_le _ _ = False"

fun dbl_less :: "dbl \<Rightarrow> dbl \<Rightarrow> bool" where
  "dbl_less NaN _ = False"
| "dbl_less _ NaN = False"
| "dbl_less PInf _ = False"
| "dbl_less _ NInf = False"
| "dbl_less (Fin a) (Fin b) = (a < b)"
| "dbl_less _ _ = True"

text \<open>\<^verbatim>\<open>a >= b\<close> is \<^verbatim>\<open>b <= a\<close>.\<close>

definition dbl_ge :: "dbl \<Rightarrow> dbl \<Rightarrow> bool" where
  "dbl_ge a b = dbl_le b a"

text \<open>
  The quotient of two finite doubles: a nonzero number over zero is an infinity, zero
  over zero is NaN. (The zero divisor is taken as \<open>+0\<close>; the only divisor of this kind
  in the program is \<open>2 * (D \<bullet> D)\<close>, a sum of squares.)
\<close>

definition dbl_div :: "real \<Rightarrow> real \<Rightarrow> dbl" where
  "dbl_div a b =
     (if b \<noteq> 0 then Fin (a / b)
      else if a = 0 then NaN
      else if a > 0 then PInf
      else NInf)"

section \<open>Vec3\<close>

record Vec3 =
  x :: real
  y :: real
  z :: real

text \<open>\<^verbatim>\<open>Vec3()\<close>, also written \<^verbatim>\<open>Vec3(0, 0, 0)\<close> in the source.\<close>

definition Vec3_zero :: Vec3 where
  "Vec3_zero = \<lparr>x = 0, y = 0, z = 0\<rparr>"

text \<open>\<^verbatim>\<open>operator+\<close>, \<^verbatim>\<open>operator-\<close>, \<^verbatim>\<open>operator*(double)\<close>, \<^verbatim>\<open>operator*(const Vec3&)\<close>.\<close>

definition vec_add :: "Vec3 \<Rightarrow> Vec3 \<Rightarrow> Vec3" where
  "vec_add u v = \<lparr>x = x u + x v, y = y u + y v, z = z u + z v\<rparr>"

definition vec_sub :: "Vec3 \<Rightarrow> Vec3 \<Rightarrow> Vec3" where
  "vec_sub u v = \<lparr>x = x u - x v, y = y u - y v, z = z u - z v\<rparr>"

definition vec_scale :: "Vec3 \<Rightarrow> real \<Rightarrow> Vec3" where
  "vec_scale u t = \<lparr>x = x u * t, y = y u * t, z = z u * t\<rparr>"

definition vec_mul :: "Vec3 \<Rightarrow> Vec3 \<Rightarrow> Vec3" where
  "vec_mul u v = \<lparr>x = x u * x v, y = y u * y v, z = z u * z v\<rparr>"

text \<open>
  \<^verbatim>\<open>operator/(double t)\<close>. With \<open>t = 0\<close> the components are infinite or NaN, which is
  not a vector of reals: the model returns \<open>Inl NonFinite\<close> there.
\<close>

definition vec_div :: "Vec3 \<Rightarrow> real \<Rightarrow> error + Vec3" where
  "vec_div u t =
     (if t = 0 then Inl NonFinite
      else Inr \<lparr>x = x u / t, y = y u / t, z = z u / t\<rparr>)"

definition dot :: "Vec3 \<Rightarrow> Vec3 \<Rightarrow> real" where
  "dot u v = x u * x v + y u * y v + z u * z v"

definition vec_length :: "Vec3 \<Rightarrow> real" where
  "vec_length u = sqrt (x u * x u + y u * y u + z u * z u)"

definition normalize :: "Vec3 \<Rightarrow> error + Vec3" where
  "normalize u =
     (let len = vec_length u
      in if len > 0 then vec_div u len else Inr \<lparr>x = 0, y = 0, z = 0\<rparr>)"

section \<open>Ray\<close>

record Ray =
  origin :: Vec3
  direction :: Vec3

text \<open>The constructor \<^verbatim>\<open>Ray(origin, direction)\<close>: the direction is normalized.\<close>

definition mkRay :: "Vec3 \<Rightarrow> Vec3 \<Rightarrow> error + Ray" where
  "mkRay orig dir =
     (case normalize dir of
        Inl e \<Rightarrow> Inl e
      | Inr d \<Rightarrow> Inr \<lparr>origin = orig, direction = d\<rparr>)"

definition ray_at :: "Ray \<Rightarrow> real \<Rightarrow> Vec3" where
  "ray_at ray t = vec_add (origin ray) (vec_scale (direction ray) t)"

section \<open>Material, Sphere, Light\<close>

record Material =
  color :: Vec3

record Sphere =
  center :: Vec3
  radius :: real
  material :: Material

text \<open>
  \<^verbatim>\<open>Sphere::intersect(ray, t, tMin, tMax)\<close>. The C++ function returns a \<^verbatim>\<open>bool\<close> and
  writes \<^verbatim>\<open>t\<close> only when it returns true: \<open>Some t\<close> is a hit at \<open>t\<close>, \<open>None\<close> a miss.
  The two roots are quotients by \<open>2 * a\<close>, which is zero for a ray of zero direction;
  they are doubles that are then compared, so they have type \<open>dbl\<close>.
\<close>

definition sphere_intersect :: "Sphere \<Rightarrow> Ray \<Rightarrow> real \<Rightarrow> dbl \<Rightarrow> dbl option" where
  "sphere_intersect s ray tMin tMax =
     (let oc = vec_sub (origin ray) (center s);
          a = dot (direction ray) (direction ray);
          b = 2 * dot oc (direction ray);
          c = dot oc oc - radius s * radius s;
          discriminant = b * b - 4 * a * c
      in if discriminant < 0 then None
         else
           let sqrtd = sqrt discriminant;
               t0 = dbl_div (- b - sqrtd) (2 * a);
               t1 = dbl_div (- b + sqrtd) (2 * a)
           in if dbl_ge t0 (Fin tMin) \<and> dbl_le t0 tMax then Some t0
              else if dbl_ge t1 (Fin tMin) \<and> dbl_le t1 tMax then Some t1
              else None)"

definition getNormal :: "Sphere \<Rightarrow> Vec3 \<Rightarrow> error + Vec3" where
  "getNormal s point = normalize (vec_sub point (center s))"

record Light =
  position :: Vec3
  color :: Vec3
  intensity :: real

section \<open>Scene\<close>

record Scene =
  spheres :: "Sphere list"
  lights :: "Light list"
  ambientLight :: Vec3

text \<open>The constructor \<^verbatim>\<open>Scene()\<close>, \<^verbatim>\<open>addSphere\<close> and \<^verbatim>\<open>addLight\<close> (\<^verbatim>\<open>push_back\<close>).\<close>

definition mkScene :: Scene where
  "mkScene = \<lparr>spheres = [], lights = [], ambientLight = \<lparr>x = 0.1, y = 0.1, z = 0.1\<rparr>\<rparr>"

definition addSphere :: "Scene \<Rightarrow> Sphere \<Rightarrow> Scene" where
  "addSphere sc sphere = sc\<lparr>spheres := spheres sc @ [sphere]\<rparr>"

definition addLight :: "Scene \<Rightarrow> Light \<Rightarrow> Scene" where
  "addLight sc light = sc\<lparr>lights := lights sc @ [light]\<rparr>"

text \<open>
  The loop of \<^verbatim>\<open>Scene::intersect\<close>, from index \<open>i\<close> on, with the current values of the
  two output parameters. \<^verbatim>\<open>sphereIndex = i\<close> converts a \<^verbatim>\<open>size_t\<close> to an \<^verbatim>\<open>int\<close>; the
  model takes the scene to have fewer than \<open>2^31\<close> spheres, so that the value is kept.
\<close>

function scene_intersect_loop ::
    "Sphere list \<Rightarrow> Ray \<Rightarrow> real \<Rightarrow> nat \<Rightarrow> dbl \<Rightarrow> int \<Rightarrow> dbl \<times> int" where
  "scene_intersect_loop sphs ray tMin i tClosest sphereIndex =
     (if i < length sphs then
        (case sphere_intersect (sphs ! i) ray tMin tClosest of
           Some t \<Rightarrow> scene_intersect_loop sphs ray tMin (i + 1) t (int i)
         | None \<Rightarrow> scene_intersect_loop sphs ray tMin (i + 1) tClosest sphereIndex)
      else (tClosest, sphereIndex))"
  by pat_completeness auto
termination
  by (relation "measure (\<lambda>(sphs, ray, tMin, i, tClosest, sphereIndex). length sphs - i)") auto

declare scene_intersect_loop.simps [simp del]

text \<open>
  \<^verbatim>\<open>Scene::intersect(ray, tClosest, sphereIndex, tMin)\<close>: the returned \<^verbatim>\<open>bool\<close> and the
  final values of the two output parameters.
\<close>

definition scene_intersect :: "Scene \<Rightarrow> Ray \<Rightarrow> real \<Rightarrow> bool \<times> dbl \<times> int" where
  "scene_intersect sc ray tMin =
     (case scene_intersect_loop (spheres sc) ray tMin 0 PInf (- 1) of
        (tClosest, sphereIndex) \<Rightarrow> (sphereIndex \<noteq> - 1, tClosest, sphereIndex))"

definition isInShadow :: "Scene \<Rightarrow> Vec3 \<Rightarrow> Vec3 \<Rightarrow> error + bool" where
  "isInShadow sc point lightPos =
     (let toLight = vec_sub lightPos point;
          distToLight = vec_length toLight
      in case mkRay point toLight of
           Inl e \<Rightarrow> Inl e
         | Inr shadowRay \<Rightarrow>
             (case scene_intersect sc shadowRay 0.001 of
                (True, t, sphereIdx) \<Rightarrow> Inr (dbl_less t (Fin distToLight))
              | (False, t, sphereIdx) \<Rightarrow> Inr False))"

section \<open>Camera\<close>

record Camera =
  position :: Vec3
  lookAt :: Vec3
  up :: Vec3
  fov :: real

text \<open>
  \<^verbatim>\<open>Camera::getRay(u, v, width, height)\<close>. The source's locals \<^verbatim>\<open>x\<close> and \<^verbatim>\<open>y\<close> are
  \<open>ndcX\<close> and \<open>ndcY\<close> here. The function divides by \<^verbatim>\<open>width\<close> and by \<^verbatim>\<open>height\<close>
  (converted to \<^verbatim>\<open>double\<close>); a zero there leaves the reals.
\<close>

definition getRay :: "Camera \<Rightarrow> real \<Rightarrow> real \<Rightarrow> int \<Rightarrow> int \<Rightarrow> error + Ray" where
  "getRay cam u v w h =
     (case normalize (vec_sub (lookAt cam) (Camera.position cam)) of
        Inl e \<Rightarrow> Inl e
      | Inr forward \<Rightarrow>
     (case normalize \<lparr>x = y forward * z (up cam) - z forward * y (up cam),
                      y = z forward * x (up cam) - x forward * z (up cam),
                      z = x forward * y (up cam) - y forward * x (up cam)\<rparr> of
        Inl e \<Rightarrow> Inl e
      | Inr right \<Rightarrow>
          let upVec = \<lparr>x = y right * z forward - z right * y forward,
                       y = z right * x forward - x right * z forward,
                       z = x right * y forward - y right * x forward\<rparr>
          in if h = 0 \<or> w = 0 then Inl NonFinite
             else
               let aspectRatio = real_of_int w / real_of_int h;
                   scale = tan (fov cam * 0.5 * pi / 180);
                   ndcX = (2 * u / real_of_int w - 1) * aspectRatio * scale;
                   ndcY = (1 - 2 * v / real_of_int h) * scale
               in (case normalize (vec_add (vec_add forward (vec_scale right ndcX))
                                           (vec_scale upVec ndcY)) of
                     Inl e \<Rightarrow> Inl e
                   | Inr dir \<Rightarrow> mkRay (Camera.position cam) dir)))"

section \<open>Image\<close>

record Image =
  width :: int
  height :: int
  pixels :: "Vec3 list"

text \<open>
  \<^verbatim>\<open>int\<close> is read as an unbounded integer: the model takes \<^verbatim>\<open>width * height\<close> to fit an
  \<^verbatim>\<open>int\<close>. The constructor \<^verbatim>\<open>Image(width, height)\<close> makes \<^verbatim>\<open>width * height\<close> zero vectors
  (for a negative product \<^verbatim>\<open>resize\<close> fails in the source; the model has no pixel then).
  \<^verbatim>\<open>setPixel\<close> and \<^verbatim>\<open>getPixel\<close> index the pixels after their bounds check; the index is
  in range for an image as the constructor builds it, which is what the theorems about
  images assume (\<open>wf_image\<close> below).
\<close>

definition mkImage :: "int \<Rightarrow> int \<Rightarrow> Image" where
  "mkImage w h = \<lparr>width = w, height = h, pixels = replicate (nat (w * h)) \<lparr>x = 0, y = 0, z = 0\<rparr>\<rparr>"

definition setPixel :: "Image \<Rightarrow> int \<Rightarrow> int \<Rightarrow> Vec3 \<Rightarrow> Image" where
  "setPixel img px py c =
     (if px \<ge> 0 \<and> px < width img \<and> py \<ge> 0 \<and> py < height img
      then img\<lparr>pixels := (pixels img)[nat (py * width img + px) := c]\<rparr>
      else img)"

definition getPixel :: "Image \<Rightarrow> int \<Rightarrow> int \<Rightarrow> Vec3" where
  "getPixel img px py =
     (if px \<ge> 0 \<and> px < width img \<and> py \<ge> 0 \<and> py < height img
      then pixels img ! nat (py * width img + px)
      else \<lparr>x = 0, y = 0, z = 0\<rparr>)"

section \<open>Renderer\<close>

text \<open>\<^verbatim>\<open>scene.spheres[sphereIdx]\<close> with an \<^verbatim>\<open>int\<close> index: undefined out of range.\<close>

definition sphere_at :: "Scene \<Rightarrow> int \<Rightarrow> error + Sphere" where
  "sphere_at sc i =
     (if 0 \<le> i \<and> i < int (length (spheres sc)) then Inr (spheres sc ! nat i)
      else Inl OutOfBounds)"

text \<open>
  The body of the pixel loop of each of the four render functions, up to the call of
  \<^verbatim>\<open>setPixel\<close>: the colour written at pixel \<open>(px, py)\<close> of an image of the given width
  and height. A distance \<^verbatim>\<open>t\<close> that is not finite leaves the reals in \<^verbatim>\<open>t / 20.0\<close> and
  \<^verbatim>\<open>ray.at(t)\<close>.
\<close>

definition renderDistance_color :: "Camera \<Rightarrow> Scene \<Rightarrow> int \<Rightarrow> int \<Rightarrow> int \<Rightarrow> int \<Rightarrow> error + Vec3" where
  "renderDistance_color camera scene w h px py =
     (case getRay camera (real_of_int px) (real_of_int py) w h of
        Inl e \<Rightarrow> Inl e
      | Inr ray \<Rightarrow>
          (case scene_intersect scene ray 0.001 of
             (True, Fin t, sphereIdx) \<Rightarrow>
               let normalizedDist = 1 - min 1 (t / 20)
               in Inr \<lparr>x = normalizedDist, y = normalizedDist, z = normalizedDist\<rparr>
           | (True, t, sphereIdx) \<Rightarrow> Inl NonFinite
           | (False, t, sphereIdx) \<Rightarrow> Inr \<lparr>x = 0.5, y = 0.7, z = 1.0\<rparr>))"

definition renderMaterials_color :: "Camera \<Rightarrow> Scene \<Rightarrow> int \<Rightarrow> int \<Rightarrow> int \<Rightarrow> int \<Rightarrow> error + Vec3" where
  "renderMaterials_color camera scene w h px py =
     (case getRay camera (real_of_int px) (real_of_int py) w h of
        Inl e \<Rightarrow> Inl e
      | Inr ray \<Rightarrow>
          (case scene_intersect scene ray 0.001 of
             (True, t, sphereIdx) \<Rightarrow>
               (case sphere_at scene sphereIdx of
                  Inl e \<Rightarrow> Inl e
                | Inr s \<Rightarrow> Inr (Material.color (material s)))
           | (False, t, sphereIdx) \<Rightarrow> Inr \<lparr>x = 0.5, y = 0.7, z = 1.0\<rparr>))"

text \<open>The loop over \<^verbatim>\<open>scene.lights\<close> of \<^verbatim>\<open>renderDiffuse\<close>, updating \<^verbatim>\<open>finalColor\<close>.\<close>

fun diffuse_lights :: "Light list \<Rightarrow> Vec3 \<Rightarrow> Vec3 \<Rightarrow> Vec3 \<Rightarrow> Vec3 \<Rightarrow> error + Vec3" where
  "diffuse_lights [] hitPoint normal materialColor finalColor = Inr finalColor"
| "diffuse_lights (light # ls) hitPoint normal materialColor finalColor =
     (case normalize (vec_sub (Light.position light) hitPoint) of
        Inl e \<Rightarrow> Inl e
      | Inr toLight \<Rightarrow>
          let diffuse = max 0 (dot normal toLight)
          in diffuse_lights ls hitPoint normal materialColor
               (vec_add finalColor
                  (vec_scale (vec_mul materialColor (Light.color light))
                     (diffuse * intensity light))))"

definition renderDiffuse_color :: "Camera \<Rightarrow> Scene \<Rightarrow> int \<Rightarrow> int \<Rightarrow> int \<Rightarrow> int \<Rightarrow> error + Vec3" where
  "renderDiffuse_color camera scene w h px py =
     (case getRay camera (real_of_int px) (real_of_int py) w h of
        Inl e \<Rightarrow> Inl e
      | Inr ray \<Rightarrow>
          (case scene_intersect scene ray 0.001 of
             (True, Fin t, sphereIdx) \<Rightarrow>
               let hitPoint = ray_at ray t
               in (case sphere_at scene sphereIdx of
                     Inl e \<Rightarrow> Inl e
                   | Inr s \<Rightarrow>
                       (case getNormal s hitPoint of
                          Inl e \<Rightarrow> Inl e
                        | Inr normal \<Rightarrow>
                            let materialColor = Material.color (material s);
                                finalColor = vec_mul (ambientLight scene) materialColor
                            in diffuse_lights (lights scene) hitPoint normal materialColor
                                 finalColor))
           | (True, t, sphereIdx) \<Rightarrow> Inl NonFinite
           | (False, t, sphereIdx) \<Rightarrow> Inr \<lparr>x = 0.5, y = 0.7, z = 1.0\<rparr>))"

text \<open>The loop over \<^verbatim>\<open>scene.lights\<close> of \<^verbatim>\<open>renderWithShadows\<close>.\<close>

fun shadow_lights :: "Scene \<Rightarrow> Light list \<Rightarrow> Vec3 \<Rightarrow> Vec3 \<Rightarrow> Vec3 \<Rightarrow> Vec3 \<Rightarrow> error + Vec3" where
  "shadow_lights scene [] hitPoint normal materialColor finalColor = Inr finalColor"
| "shadow_lights scene (light # ls) hitPoint normal materialColor finalColor =
     (case isInShadow scene hitPoint (Light.position light) of
        Inl e \<Rightarrow> Inl e
      | Inr shadowed \<Rightarrow>
          if \<not> shadowed then
            (case normalize (vec_sub (Light.position light) hitPoint) of
               Inl e \<Rightarrow> Inl e
             | Inr toLight \<Rightarrow>
                 let diffuse = max 0 (dot normal toLight)
                 in shadow_lights scene ls hitPoint normal materialColor
                      (vec_add finalColor
                         (vec_scale (vec_mul materialColor (Light.color light))
                            (diffuse * intensity light))))
          else shadow_lights scene ls hitPoint normal materialColor finalColor)"

definition renderWithShadows_color :: "Camera \<Rightarrow> Scene \<Rightarrow> int \<Rightarrow> int \<Rightarrow> int \<Rightarrow> int \<Rightarrow> error + Vec3" where
  "renderWithShadows_color camera scene w h px py =
     (case getRay camera (real_of_int px) (real_of_int py) w h of
        Inl e \<Rightarrow> Inl e
      | Inr ray \<Rightarrow>
          (case scene_intersect scene ray 0.001 of
             (True, Fin t, sphereIdx) \<Rightarrow>
               let hitPoint = ray_at ray t
               in (case sphere_at scene sphereIdx of
                     Inl e \<Rightarrow> Inl e
                   | Inr s \<Rightarrow>
                       (case getNormal s hitPoint of
                          Inl e \<Rightarrow> Inl e
                        | Inr normal \<Rightarrow>
                            let materialColor = Material.color (material s);
                                finalColor = vec_mul (ambientLight scene) materialColor
                            in shadow_lights scene (lights scene) hitPoint normal materialColor
                                 finalColor))
           | (True, t, sphereIdx) \<Rightarrow> Inl NonFinite
           | (False, t, sphereIdx) \<Rightarrow> Inr \<lparr>x = 0.5, y = 0.7, z = 1.0\<rparr>))"

text \<open>
  The two nested loops, which the four render functions share word for word: \<open>f\<close> is
  the colour of the loop body, given the image's width and height and the pixel. The
  inner loop runs \<^verbatim>\<open>x\<close> from \<open>px\<close> to \<^verbatim>\<open>img.width\<close> in row \<open>py\<close>, the outer one \<^verbatim>\<open>y\<close>
  from \<open>py\<close> to \<^verbatim>\<open>img.height\<close>.
\<close>

function render_cols ::
    "(int \<Rightarrow> int \<Rightarrow> int \<Rightarrow> int \<Rightarrow> error + Vec3) \<Rightarrow> int \<Rightarrow> int \<Rightarrow> Image \<Rightarrow> error + Image" where
  "render_cols f py px img =
     (if px < width img then
        (case f (width img) (height img) px py of
           Inl e \<Rightarrow> Inl e
         | Inr c \<Rightarrow> render_cols f py (px + 1) (setPixel img px py c))
      else Inr img)"
  by pat_completeness auto
termination
  by (relation "measure (\<lambda>(f, py, px, img). nat (width img - px))")
     (auto simp: setPixel_def)

declare render_cols.simps [simp del]

function render_rows ::
    "(int \<Rightarrow> int \<Rightarrow> int \<Rightarrow> int \<Rightarrow> error + Vec3) \<Rightarrow> int \<Rightarrow> Image \<Rightarrow> error + Image" where
  "render_rows f py img =
     (if py < height img then
        (case render_cols f py 0 img of
           Inl e \<Rightarrow> Inl e
         | Inr img' \<Rightarrow> render_rows f (py + 1) img')
      else Inr img)"
  by pat_completeness auto

lemma render_cols_dims:
  "render_cols f py px img = Inr img' \<Longrightarrow> width img' = width img \<and> height img' = height img"
proof (induction f py px img rule: render_cols.induct)
  case (1 f py px img)
  show ?case
  proof (cases "px < width img")
    case False
    with "1.prems" show ?thesis
      by (simp add: render_cols.simps [of f py px img])
  next
    case True
    with "1.prems" obtain c where c: "f (width img) (height img) px py = Inr c"
      and r: "render_cols f py (px + 1) (setPixel img px py c) = Inr img'"
      by (simp add: render_cols.simps [of f py px img] split: sum.splits)
    from "1.IH" [OF True c r] show ?thesis
      by (simp add: setPixel_def)
  qed
qed

termination render_rows
  by (relation "measure (\<lambda>(f, py, img). nat (height img - py))")
     (auto dest: render_cols_dims)

declare render_rows.simps [simp del]

definition renderDistance :: "Image \<Rightarrow> Camera \<Rightarrow> Scene \<Rightarrow> error + Image" where
  "renderDistance img camera scene = render_rows (renderDistance_color camera scene) 0 img"

definition renderMaterials :: "Image \<Rightarrow> Camera \<Rightarrow> Scene \<Rightarrow> error + Image" where
  "renderMaterials img camera scene = render_rows (renderMaterials_color camera scene) 0 img"

definition renderDiffuse :: "Image \<Rightarrow> Camera \<Rightarrow> Scene \<Rightarrow> error + Image" where
  "renderDiffuse img camera scene = render_rows (renderDiffuse_color camera scene) 0 img"

definition renderWithShadows :: "Image \<Rightarrow> Camera \<Rightarrow> Scene \<Rightarrow> error + Image" where
  "renderWithShadows img camera scene = render_rows (renderWithShadows_color camera scene) 0 img"

section \<open>Doubles with their range\<close>

text \<open>
  The range of a binary64 double under round-to-nearest, ties to even. The largest
  finite double is \<open>2^1024 - 2^971\<close>; a real result of at least \<open>2^1024 - 2^970\<close>, half
  a unit in the last place above it, rounds to \<open>+\<infinity>\<close>. The smallest positive double is
  \<open>2^-1074\<close>; a real result of magnitude at most \<open>2^-1075\<close>, half of it, rounds to zero.
\<close>

definition dbl_over :: real where
  "dbl_over = 2 ^ 1024 - 2 ^ 970"

definition dbl_under :: real where
  "dbl_under = 1 / 2 ^ 1075"

text \<open>
  The double that a real result becomes: an infinity beyond the range, zero below it,
  and the real itself in between (the rounding inside the range is not modelled, nor is
  the sign of a zero).
\<close>

definition rnd :: "real \<Rightarrow> dbl" where
  "rnd r =
     (if dbl_over \<le> r then PInf
      else if r \<le> - dbl_over then NInf
      else if \<bar>r\<bar> \<le> dbl_under then Fin 0
      else Fin r)"

text \<open>
  The operations \<^verbatim>\<open>-a\<close>, \<^verbatim>\<open>a + b\<close>, \<^verbatim>\<open>a - b\<close>, \<^verbatim>\<open>a * b\<close>, \<^verbatim>\<open>a / b\<close> and \<^verbatim>\<open>std::sqrt\<close> on
  doubles. NaN propagates; \<open>\<infinity> - \<infinity>\<close>, \<open>0 * \<infinity>\<close>, \<open>0 / 0\<close>, \<open>\<infinity> / \<infinity>\<close> and the root of a
  negative number are NaN; a finite number over an infinity is zero; a nonzero finite
  number over zero is an infinity. A zero divisor is taken as \<open>+0\<close>: the divisors of the
  program are \<open>len\<close> in \<open>normalize\<close>, a square root, and \<open>2 * a\<close> in \<open>Sphere::intersect\<close>,
  twice a sum of squares.
\<close>

fun dneg :: "dbl \<Rightarrow> dbl" where
  "dneg (Fin a) = Fin (- a)"
| "dneg PInf = NInf"
| "dneg NInf = PInf"
| "dneg NaN = NaN"

fun dadd :: "dbl \<Rightarrow> dbl \<Rightarrow> dbl" where
  "dadd NaN _ = NaN"
| "dadd _ NaN = NaN"
| "dadd (Fin a) (Fin b) = rnd (a + b)"
| "dadd PInf NInf = NaN"
| "dadd NInf PInf = NaN"
| "dadd PInf _ = PInf"
| "dadd _ PInf = PInf"
| "dadd NInf _ = NInf"
| "dadd _ NInf = NInf"

definition dsub :: "dbl \<Rightarrow> dbl \<Rightarrow> dbl" where
  "dsub a b = dadd a (dneg b)"

fun dmul :: "dbl \<Rightarrow> dbl \<Rightarrow> dbl" where
  "dmul NaN _ = NaN"
| "dmul _ NaN = NaN"
| "dmul (Fin a) (Fin b) = rnd (a * b)"
| "dmul (Fin a) PInf = (if a = 0 then NaN else if 0 < a then PInf else NInf)"
| "dmul (Fin a) NInf = (if a = 0 then NaN else if 0 < a then NInf else PInf)"
| "dmul PInf (Fin b) = (if b = 0 then NaN else if 0 < b then PInf else NInf)"
| "dmul NInf (Fin b) = (if b = 0 then NaN else if 0 < b then NInf else PInf)"
| "dmul PInf PInf = PInf"
| "dmul NInf NInf = PInf"
| "dmul PInf NInf = NInf"
| "dmul NInf PInf = NInf"

fun ddiv :: "dbl \<Rightarrow> dbl \<Rightarrow> dbl" where
  "ddiv NaN _ = NaN"
| "ddiv _ NaN = NaN"
| "ddiv (Fin a) (Fin b) =
     (if b \<noteq> 0 then rnd (a / b)
      else if a = 0 then NaN
      else if 0 < a then PInf
      else NInf)"
| "ddiv (Fin a) PInf = Fin 0"
| "ddiv (Fin a) NInf = Fin 0"
| "ddiv PInf (Fin b) = (if 0 \<le> b then PInf else NInf)"
| "ddiv NInf (Fin b) = (if 0 \<le> b then NInf else PInf)"
| "ddiv _ _ = NaN"

fun dsqrt :: "dbl \<Rightarrow> dbl" where
  "dsqrt (Fin a) = (if a < 0 then NaN else rnd (sqrt a))"
| "dsqrt PInf = PInf"
| "dsqrt NInf = NaN"
| "dsqrt NaN = NaN"

text \<open>
  \<open>Vec3\<close> in the range reading: three doubles. \<open>to_fp\<close> is the vector of finite doubles
  with the given components. \<open>sub_fp\<close>, \<open>div_fp\<close>, \<open>dot_fp\<close> and \<open>length_fp\<close> are
  \<^verbatim>\<open>operator-\<close>, \<^verbatim>\<open>operator/\<close>, \<^verbatim>\<open>dot\<close> (\<^verbatim>\<open>x * v.x + y * v.y + z * v.z\<close>, summed from the
  left) and \<^verbatim>\<open>length\<close> (\<^verbatim>\<open>std::sqrt(x * x + y * y + z * z)\<close>).
\<close>

record Vec3_fp =
  fx :: dbl
  fy :: dbl
  fz :: dbl

definition to_fp :: "Vec3 \<Rightarrow> Vec3_fp" where
  "to_fp u = \<lparr>fx = Fin (x u), fy = Fin (y u), fz = Fin (z u)\<rparr>"

definition sub_fp :: "Vec3_fp \<Rightarrow> Vec3_fp \<Rightarrow> Vec3_fp" where
  "sub_fp u v = \<lparr>fx = dsub (fx u) (fx v), fy = dsub (fy u) (fy v), fz = dsub (fz u) (fz v)\<rparr>"

definition div_fp :: "Vec3_fp \<Rightarrow> dbl \<Rightarrow> Vec3_fp" where
  "div_fp u t = \<lparr>fx = ddiv (fx u) t, fy = ddiv (fy u) t, fz = ddiv (fz u) t\<rparr>"

definition dot_fp :: "Vec3_fp \<Rightarrow> Vec3_fp \<Rightarrow> dbl" where
  "dot_fp u v = dadd (dadd (dmul (fx u) (fx v)) (dmul (fy u) (fy v))) (dmul (fz u) (fz v))"

definition length_fp :: "Vec3_fp \<Rightarrow> dbl" where
  "length_fp u =
     dsqrt (dadd (dadd (dmul (fx u) (fx u)) (dmul (fy u) (fy u))) (dmul (fz u) (fz u)))"

text \<open>
  \<open>Vec3::normalize\<close>:
  \<^verbatim>\<open>double len = length(); return len > 0 ? (*this) / len : Vec3(0, 0, 0);\<close>
\<close>

definition normalize_fp :: "Vec3_fp \<Rightarrow> Vec3_fp" where
  "normalize_fp u =
     (let len = length_fp u
      in if dbl_less (Fin 0) len then div_fp u len else \<lparr>fx = Fin 0, fy = Fin 0, fz = Fin 0\<rparr>)"

text \<open>
  \<open>Ray\<close> and its constructor, which stores \<^verbatim>\<open>direction.normalize()\<close>.
\<close>

record Ray_fp =
  origin_fp :: Vec3_fp
  direction_fp :: Vec3_fp

definition mkRay_fp :: "Vec3_fp \<Rightarrow> Vec3_fp \<Rightarrow> Ray_fp" where
  "mkRay_fp orig dir = \<lparr>origin_fp = orig, direction_fp = normalize_fp dir\<rparr>"

text \<open>
  \<open>Sphere\<close> and \<open>Sphere::intersect\<close>, statement by statement; \<open>Some t\<close> is the return value
  \<^verbatim>\<open>true\<close> with \<open>t\<close> written to the reference parameter, \<open>None\<close> is \<^verbatim>\<open>false\<close>.
\<close>

record Sphere_fp =
  center_fp :: Vec3_fp
  radius_fp :: dbl
  material_fp :: Material

definition sphere_intersect_fp :: "Sphere_fp \<Rightarrow> Ray_fp \<Rightarrow> dbl \<Rightarrow> dbl \<Rightarrow> dbl option" where
  "sphere_intersect_fp s ray tMin tMax =
     (let oc = sub_fp (origin_fp ray) (center_fp s);
          a = dot_fp (direction_fp ray) (direction_fp ray);
          b = dmul (Fin 2) (dot_fp oc (direction_fp ray));
          c = dsub (dot_fp oc oc) (dmul (radius_fp s) (radius_fp s));
          discriminant = dsub (dmul b b) (dmul (dmul (Fin 4) a) c)
      in if dbl_less discriminant (Fin 0) then None
         else
           let sqrtd = dsqrt discriminant;
               t0 = ddiv (dsub (dneg b) sqrtd) (dmul (Fin 2) a);
               t1 = ddiv (dadd (dneg b) sqrtd) (dmul (Fin 2) a)
           in if dbl_ge t0 tMin \<and> dbl_le t0 tMax then Some t0
              else if dbl_ge t1 tMin \<and> dbl_le t1 tMax then Some t1
              else None)"

text \<open>
  \<open>Scene::intersect\<close>, which reads only the spheres of the scene: the loop over the
  indices with the variables \<open>tClosest\<close> and \<open>sphereIndex\<close>, started at \<open>+\<infinity>\<close> and \<open>-1\<close>;
  the result is \<^verbatim>\<open>sphereIndex != -1\<close> with the two variables.
\<close>

function scene_intersect_fp_loop ::
    "Sphere_fp list \<Rightarrow> Ray_fp \<Rightarrow> dbl \<Rightarrow> nat \<Rightarrow> dbl \<Rightarrow> int \<Rightarrow> dbl \<times> int" where
  "scene_intersect_fp_loop sphs ray tMin i tClosest sphereIndex =
     (if i < length sphs then
        (case sphere_intersect_fp (sphs ! i) ray tMin tClosest of
           Some t \<Rightarrow> scene_intersect_fp_loop sphs ray tMin (i + 1) t (int i)
         | None \<Rightarrow> scene_intersect_fp_loop sphs ray tMin (i + 1) tClosest sphereIndex)
      else (tClosest, sphereIndex))"
  by pat_completeness auto
termination
  by (relation "measure (\<lambda>(sphs, ray, tMin, i, tClosest, sphereIndex). length sphs - i)") auto

declare scene_intersect_fp_loop.simps [simp del]

definition scene_intersect_fp :: "Sphere_fp list \<Rightarrow> Ray_fp \<Rightarrow> dbl \<Rightarrow> bool \<times> dbl \<times> int" where
  "scene_intersect_fp sphs ray tMin =
     (case scene_intersect_fp_loop sphs ray tMin 0 PInf (- 1) of
        (tClosest, sphereIndex) \<Rightarrow> (sphereIndex \<noteq> - 1, tClosest, sphereIndex))"

section \<open>Notions of the specification\<close>

text \<open>
  The definitions of this section are not part of the program. They name what the
  specification talks about, in its words, so that the claims can be stated against the
  functions above; the examples are the inputs at which the theorems are instantiated.
\<close>

text \<open>
  The value the specification gives to a normalization: the zero vector for the zero
  vector, and the vector divided by its Euclidean length otherwise.
\<close>

definition unit_of :: "Vec3 \<Rightarrow> Vec3" where
  "unit_of u =
     (if u = Vec3_zero then Vec3_zero
      else \<lparr>x = x u / vec_length u, y = y u / vec_length u, z = z u / vec_length u\<rparr>)"


definition quad_a :: "Ray \<Rightarrow> real" where
  "quad_a ray = dot (direction ray) (direction ray)"

definition quad_b :: "Sphere \<Rightarrow> Ray \<Rightarrow> real" where
  "quad_b s ray = 2 * dot (vec_sub (origin ray) (center s)) (direction ray)"

definition quad_c :: "Sphere \<Rightarrow> Ray \<Rightarrow> real" where
  "quad_c s ray =
     dot (vec_sub (origin ray) (center s)) (vec_sub (origin ray) (center s))
       - radius s * radius s"

definition discr :: "Sphere \<Rightarrow> Ray \<Rightarrow> real" where
  "discr s ray = quad_b s ray * quad_b s ray - 4 * quad_a ray * quad_c s ray"

definition root0 :: "Sphere \<Rightarrow> Ray \<Rightarrow> real" where
  "root0 s ray = (- quad_b s ray - sqrt (discr s ray)) / (2 * quad_a ray)"

definition root1 :: "Sphere \<Rightarrow> Ray \<Rightarrow> real" where
  "root1 s ray = (- quad_b s ray + sqrt (discr s ray)) / (2 * quad_a ray)"

text \<open>The ray and sphere of the specification's self-consistency test.\<close>

definition ex_ray :: Ray where
  "ex_ray = \<lparr>origin = \<lparr>x = 0, y = 0, z = 5\<rparr>, direction = \<lparr>x = 0, y = 0, z = - 1\<rparr>\<rparr>"

definition ex_sphere :: Sphere where
  "ex_sphere = \<lparr>center = \<lparr>x = 0, y = 0, z = 0\<rparr>, radius = 1,
                material = \<lparr>Material.color = \<lparr>x = 1, y = 0.3, z = 0.3\<rparr>\<rparr>\<rparr>"

text \<open>
  A second sphere that \<open>ex_ray\<close> also enters at distance 4, and a scene of the two
  spheres with one light in front of them and one behind.
\<close>

definition ex_sphere2 :: Sphere where
  "ex_sphere2 = \<lparr>center = \<lparr>x = 0, y = 0, z = - 1\<rparr>, radius = 2,
                 material = \<lparr>Material.color = \<lparr>x = 0.3, y = 1, z = 0.3\<rparr>\<rparr>\<rparr>"

definition ex_scene :: Scene where
  "ex_scene = \<lparr>spheres = [ex_sphere, ex_sphere2],
               lights = [\<lparr>Light.position = \<lparr>x = 0, y = 0, z = 5\<rparr>,
                          Light.color = \<lparr>x = 1, y = 1, z = 1\<rparr>, intensity = 0.8\<rparr>,
                         \<lparr>Light.position = \<lparr>x = 0, y = 0, z = - 10\<rparr>,
                          Light.color = \<lparr>x = 1, y = 0.9, z = 0.8\<rparr>, intensity = 0.4\<rparr>],
               ambientLight = \<lparr>x = 0.1, y = 0.1, z = 0.1\<rparr>\<rparr>"

text \<open>
  The camera basis of the specification: the cross product, \<open>forward\<close>, \<open>right\<close> and
  \<open>trueUp\<close>, and the normalized device coordinates of a pixel.
\<close>

definition cross :: "Vec3 \<Rightarrow> Vec3 \<Rightarrow> Vec3" where
  "cross u v = \<lparr>x = y u * z v - z u * y v,
                y = z u * x v - x u * z v,
                z = x u * y v - y u * x v\<rparr>"

definition cam_forward :: "Camera \<Rightarrow> Vec3" where
  "cam_forward cam = unit_of (vec_sub (lookAt cam) (Camera.position cam))"

definition cam_right :: "Camera \<Rightarrow> Vec3" where
  "cam_right cam = unit_of (cross (cam_forward cam) (up cam))"

definition cam_trueUp :: "Camera \<Rightarrow> Vec3" where
  "cam_trueUp cam = cross (cam_right cam) (cam_forward cam)"

definition cam_scale :: "Camera \<Rightarrow> real" where
  "cam_scale cam = tan ((fov cam / 2) * (pi / 180))"

definition ndc_x :: "Camera \<Rightarrow> real \<Rightarrow> int \<Rightarrow> int \<Rightarrow> real" where
  "ndc_x cam u w h =
     (2 * u / real_of_int w - 1) * (real_of_int w / real_of_int h) * cam_scale cam"

definition ndc_y :: "Camera \<Rightarrow> real \<Rightarrow> int \<Rightarrow> real" where
  "ndc_y cam v h = (1 - 2 * v / real_of_int h) * cam_scale cam"

text \<open>The camera of the program's \<^verbatim>\<open>main\<close>.\<close>

definition ex_camera :: Camera where
  "ex_camera = \<lparr>Camera.position = \<lparr>x = 0, y = 0, z = 5\<rparr>, lookAt = \<lparr>x = 0, y = 0, z = 0\<rparr>,
                  up = \<lparr>x = 0, y = 1, z = 0\<rparr>, fov = 60\<rparr>"

text \<open>An image as its constructor builds it: \<^verbatim>\<open>width * height\<close> pixels.\<close>

definition wf_image :: "Image \<Rightarrow> bool" where
  "wf_image img \<longleftrightarrow>
     0 \<le> width img \<and> 0 \<le> height img \<and> length (pixels img) = nat (width img * height img)"

definition in_image :: "Image \<Rightarrow> int \<Rightarrow> int \<Rightarrow> bool" where
  "in_image img px py \<longleftrightarrow> 0 \<le> px \<and> px < width img \<and> 0 \<le> py \<and> py < height img"

text \<open>
  The shading of the specification. The term of one light:
  \<open>materialColor * light.color * max(0, normal \<bullet> toLight) * light.intensity\<close> with
  \<open>toLight = normalize(lightPosition - hitPoint)\<close>; the sum of a list of vectors; the
  colour of a hit point of sphere \<open>s\<close> lit by the lights \<open>ls\<close>:
  \<open>ambient * materialColor\<close> plus the terms of the lights.
\<close>

definition light_term :: "Vec3 \<Rightarrow> Vec3 \<Rightarrow> Vec3 \<Rightarrow> Light \<Rightarrow> Vec3" where
  "light_term materialColor normal hitPoint light =
     vec_scale
       (vec_scale (vec_mul materialColor (Light.color light))
          (max 0 (dot normal (unit_of (vec_sub (Light.position light) hitPoint)))))
       (intensity light)"

definition vec_sum :: "Vec3 list \<Rightarrow> Vec3" where
  "vec_sum vs = foldr vec_add vs Vec3_zero"

definition shade :: "Scene \<Rightarrow> Light list \<Rightarrow> Sphere \<Rightarrow> Vec3 \<Rightarrow> Vec3" where
  "shade sc ls s hitPoint =
     vec_add (vec_mul (ambientLight sc) (Material.color (material s)))
       (vec_sum (map (light_term (Material.color (material s))
                        (unit_of (vec_sub hitPoint (center s))) hitPoint) ls))"

text \<open>
  What the specification's words mean on doubles: the square of a component as the
  multiplication computes it when it does not overflow (flushed to zero when it
  underflows), the sum of the three squares so computed, and the vectors whose squares
  neither underflow nor, summed, overflow.
\<close>

definition flushed_sq :: "real \<Rightarrow> real" where
  "flushed_sq c = (if c * c \<le> dbl_under then 0 else c * c)"

definition computed_sq_sum :: "Vec3 \<Rightarrow> real" where
  "computed_sq_sum v = flushed_sq (x v) + flushed_sq (y v) + flushed_sq (z v)"

definition in_range :: "Vec3 \<Rightarrow> bool" where
  "in_range v \<longleftrightarrow>
     (x v = 0 \<or> dbl_under < x v * x v) \<and> (y v = 0 \<or> dbl_under < y v * y v)
     \<and> (z v = 0 \<or> dbl_under < z v * z v)
     \<and> x v * x v + y v * y v + z v * z v < dbl_over"

text \<open>Two magnitudes whose squares leave the range of a double: \<open>1e200\<close> and \<open>1e-200\<close>.\<close>

definition ex_huge :: real where
  "ex_huge = 10 ^ 200"


text \<open>
  The ray from \<open>(0, 0, 5)\<close> along \<open>-z\<close> and two spheres at the origin, one of radius 1 and
  one of radius \<open>1e200\<close>, on doubles.
\<close>

definition ex_ray_fp :: Ray_fp where
  "ex_ray_fp = \<lparr>origin_fp = to_fp \<lparr>x = 0, y = 0, z = 5\<rparr>,
                 direction_fp = to_fp \<lparr>x = 0, y = 0, z = - 1\<rparr>\<rparr>"

definition ex_unit_sphere_fp :: Sphere_fp where
  "ex_unit_sphere_fp = \<lparr>center_fp = to_fp \<lparr>x = 0, y = 0, z = 0\<rparr>, radius_fp = Fin 1,
                         material_fp = \<lparr>Material.color = \<lparr>x = 1, y = 0.3, z = 0.3\<rparr>\<rparr>\<rparr>"

definition ex_huge_sphere_fp :: Sphere_fp where
  "ex_huge_sphere_fp = \<lparr>center_fp = to_fp \<lparr>x = 0, y = 0, z = 0\<rparr>, radius_fp = Fin ex_huge,
                         material_fp = \<lparr>Material.color = \<lparr>x = 1, y = 0.3, z = 0.3\<rparr>\<rparr>\<rparr>"

section \<open>Vector algebra: basic facts\<close>

lemma Vec3_eq_iff: "(u :: Vec3) = v \<longleftrightarrow> x u = x v \<and> y u = y v \<and> z u = z v"
  by (cases u, cases v) simp

lemma vec_length_nonneg: "0 \<le> vec_length u"
  by (simp add: vec_length_def)

lemma vec_length_eq_0_iff: "vec_length u = 0 \<longleftrightarrow> u = Vec3_zero"
proof -
  have "x u * x u + y u * y u + z u * z u = 0 \<longleftrightarrow> x u = 0 \<and> y u = 0 \<and> z u = 0"
    by (metis (no_types, opaque_lifting) add_nonneg_eq_0_iff zero_le_square mult_eq_0_iff
        add_nonneg_nonneg add.right_neutral)
  then show ?thesis
    by (simp add: vec_length_def Vec3_eq_iff Vec3_zero_def)
qed

lemma vec_length_pos_iff: "0 < vec_length u \<longleftrightarrow> u \<noteq> Vec3_zero"
  using vec_length_nonneg [of u] vec_length_eq_0_iff [of u] by linarith

lemma vec_length_sq: "vec_length u * vec_length u = dot u u"
  by (simp add: vec_length_def dot_def)

lemma normalize_unit_of: "normalize u = Inr (unit_of u)"
proof (cases "u = Vec3_zero")
  case True
  then show ?thesis
    by (simp add: normalize_def unit_of_def vec_length_def Vec3_zero_def)
next
  case False
  then have "0 < vec_length u"
    by (simp add: vec_length_pos_iff)
  with False show ?thesis
    by (simp add: normalize_def unit_of_def vec_div_def Let_def)
qed

lemma dot_unit_of: "u \<noteq> Vec3_zero \<Longrightarrow> dot (unit_of u) (unit_of u) = 1"
proof -
  assume nz: "u \<noteq> Vec3_zero"
  then have pos: "0 < vec_length u"
    by (simp add: vec_length_pos_iff)
  have "dot (unit_of u) (unit_of u) = dot u u / (vec_length u * vec_length u)"
    using nz by (simp add: unit_of_def dot_def add_divide_distrib)
  also have "\<dots> = 1"
    using pos by (simp add: vec_length_sq [symmetric])
  finally show ?thesis .
qed

lemma vec_length_unit_of: "u \<noteq> Vec3_zero \<Longrightarrow> vec_length (unit_of u) = 1"
proof -
  assume nz: "u \<noteq> Vec3_zero"
  have "vec_length (unit_of u) = sqrt (dot (unit_of u) (unit_of u))"
    by (simp add: vec_length_def dot_def)
  then show ?thesis
    using dot_unit_of [OF nz] by simp
qed

lemma unit_of_zero: "unit_of Vec3_zero = Vec3_zero"
  by (simp add: unit_of_def)

lemma unit_of_eq_zero_iff: "unit_of u = Vec3_zero \<longleftrightarrow> u = Vec3_zero"
proof
  assume h: "unit_of u = Vec3_zero"
  show "u = Vec3_zero"
  proof (rule ccontr)
    assume nz: "u \<noteq> Vec3_zero"
    from dot_unit_of [OF nz] h show False
      by (simp add: dot_def Vec3_zero_def)
  qed
next
  assume "u = Vec3_zero"
  then show "unit_of u = Vec3_zero"
    by (simp add: unit_of_zero)
qed

lemma unit_of_idem: "unit_of (unit_of u) = unit_of u"
proof (cases "u = Vec3_zero")
  case True
  then show ?thesis by (simp add: unit_of_zero)
next
  case False
  then have "vec_length (unit_of u) = 1"
    by (rule vec_length_unit_of)
  moreover from False have "unit_of u \<noteq> Vec3_zero"
    by (simp add: unit_of_eq_zero_iff)
  ultimately show ?thesis
    by (simp add: unit_of_def [of "unit_of u"])
qed

section \<open>Sphere intersection: facts\<close>

lemma dot_self_eq_0_iff: "dot u u = 0 \<longleftrightarrow> u = Vec3_zero"
  using vec_length_eq_0_iff [of u] by (simp add: vec_length_def dot_def)

lemma quad_a_nonneg: "0 \<le> quad_a ray"
  by (simp add: quad_a_def dot_def)

lemma quad_a_zero: "quad_a ray = 0 \<Longrightarrow> quad_b s ray = 0 \<and> discr s ray = 0"
proof -
  assume "quad_a ray = 0"
  then have d: "direction ray = Vec3_zero"
    by (simp add: quad_a_def dot_self_eq_0_iff)
  then have "quad_b s ray = 0"
    by (simp add: quad_b_def dot_def Vec3_zero_def)
  with \<open>quad_a ray = 0\<close> show ?thesis
    by (simp add: discr_def)
qed

lemma sphere_intersect_unfold:
  "sphere_intersect s ray tMin tMax =
     (if discr s ray < 0 \<or> quad_a ray = 0 then None
      else if tMin \<le> root0 s ray \<and> dbl_le (Fin (root0 s ray)) tMax then Some (Fin (root0 s ray))
      else if tMin \<le> root1 s ray \<and> dbl_le (Fin (root1 s ray)) tMax then Some (Fin (root1 s ray))
      else None)"
proof (cases "quad_a ray = 0")
  case True
  then have d: "direction ray = Vec3_zero"
    by (simp add: quad_a_def dot_self_eq_0_iff)
  have "dot (direction ray) (direction ray) = 0"
    and "dot (vec_sub (origin ray) (center s)) (direction ray) = 0"
    by (simp_all add: d dot_def Vec3_zero_def)
  with True show ?thesis
    by (simp add: sphere_intersect_def Let_def dbl_div_def dbl_ge_def)
next
  case False
  then show ?thesis
    by (simp add: sphere_intersect_def Let_def dbl_div_def dbl_ge_def
        quad_a_def quad_b_def quad_c_def discr_def root0_def root1_def)
qed

lemma root0_le_root1: "0 \<le> discr s ray \<Longrightarrow> root0 s ray \<le> root1 s ray"
proof -
  assume d: "0 \<le> discr s ray"
  have "- quad_b s ray - sqrt (discr s ray) \<le> - quad_b s ray + sqrt (discr s ray)"
    using d by simp
  then show ?thesis
    unfolding root0_def root1_def
    using quad_a_nonneg [of ray] by (intro divide_right_mono) simp_all
qed






lemma ex_quad:
  "quad_a ex_ray = 1" "quad_b ex_sphere ex_ray = - 10" "quad_c ex_sphere ex_ray = 24"
  by (simp_all add: quad_a_def quad_b_def quad_c_def ex_ray_def ex_sphere_def dot_def vec_sub_def)

lemma ex_roots:
  "discr ex_sphere ex_ray = 4" "root0 ex_sphere ex_ray = 4" "root1 ex_sphere ex_ray = 6"
  by (simp_all add: discr_def root0_def root1_def ex_quad)


lemma dbl_le_Fin_mono: "a \<le> b \<Longrightarrow> dbl_le (Fin b) m \<Longrightarrow> dbl_le (Fin a) m"
  by (cases m) simp_all

lemma sphere_intersect_bounded:
  "sphere_intersect s ray tMin tMax =
     (case sphere_intersect s ray tMin PInf of
        None \<Rightarrow> None
      | Some t \<Rightarrow> if dbl_le t tMax then Some t else None)"
proof (cases "discr s ray < 0 \<or> quad_a ray = 0")
  case True
  then show ?thesis
    by (simp add: sphere_intersect_unfold)
next
  case False
  then have "root0 s ray \<le> root1 s ray"
    by (simp add: root0_le_root1)
  then have "dbl_le (Fin (root1 s ray)) tMax \<Longrightarrow> dbl_le (Fin (root0 s ray)) tMax"
    by (rule dbl_le_Fin_mono)
  with False show ?thesis
    by (auto simp: sphere_intersect_unfold)
qed

lemma sphere_intersect_Some_Fin:
  "sphere_intersect s ray tMin tMax = Some t \<Longrightarrow> \<exists>r. t = Fin r \<and> tMin \<le> r \<and> dbl_le (Fin r) tMax"
  by (auto simp: sphere_intersect_unfold split: if_splits)

lemma sphere_intersect_Some_PInf:
  "sphere_intersect s ray tMin tMax = Some t \<Longrightarrow> sphere_intersect s ray tMin PInf = Some t"
  by (simp add: sphere_intersect_bounded [of s ray tMin tMax] split: option.splits if_splits)

lemma sphere_intersect_None_PInf:
  "sphere_intersect s ray tMin tMax = None \<Longrightarrow> sphere_intersect s ray tMin PInf = Some t
     \<Longrightarrow> \<not> dbl_le t tMax"
  by (simp add: sphere_intersect_bounded [of s ray tMin tMax] split: option.splits if_splits)

lemma scene_intersect_loop_result:
  assumes "scene_intersect_loop sphs ray tMin i tC idx = (tC', idx')"
    and "tC = PInf \<or> (\<exists>m. tC = Fin m)"
  shows "(tC' = tC \<and> idx' = idx
          \<and> (\<forall>j. i \<le> j \<and> j < length sphs \<longrightarrow> sphere_intersect (sphs ! j) ray tMin tC = None))
       \<or> (\<exists>k r. i \<le> k \<and> k < length sphs \<and> idx' = int k \<and> tC' = Fin r
             \<and> tMin \<le> r \<and> dbl_le (Fin r) tC
             \<and> sphere_intersect (sphs ! k) ray tMin PInf = Some (Fin r)
             \<and> (\<forall>j r'. i \<le> j \<and> j < length sphs
                     \<and> sphere_intersect (sphs ! j) ray tMin PInf = Some (Fin r') \<longrightarrow> r \<le> r')
             \<and> (\<forall>j r'. k < j \<and> j < length sphs
                     \<and> sphere_intersect (sphs ! j) ray tMin PInf = Some (Fin r') \<longrightarrow> r < r'))"
  using assms
proof (induction sphs ray tMin i tC idx rule: scene_intersect_loop.induct)
  case (1 sphs ray tMin i tC idx)
  let ?hit = "\<lambda>j. sphere_intersect (sphs ! j) ray tMin PInf"
  show ?case
  proof (cases "i < length sphs")
    case False
    with "1.prems"(1) have "tC' = tC" "idx' = idx"
      by (simp_all add: scene_intersect_loop.simps [of sphs ray tMin i tC idx])
    with False show ?thesis
      by (intro disjI1) auto
  next
    case inb: True
    show ?thesis
    proof (cases "sphere_intersect (sphs ! i) ray tMin tC")
      case None
      with inb "1.prems"(1)
      have rec: "scene_intersect_loop sphs ray tMin (i + 1) tC idx = (tC', idx')"
        by (simp add: scene_intersect_loop.simps [of sphs ray tMin i tC idx])
      have far: "\<not> dbl_le (Fin r') tC" if "?hit i = Some (Fin r')" for r'
        using sphere_intersect_None_PInf [OF None that] .
      from "1.IH"(1) [OF inb None rec "1.prems"(2)]
      show ?thesis
      proof (elim disjE exE conjE)
        assume same: "tC' = tC" "idx' = idx"
          and miss: "\<forall>j. i + 1 \<le> j \<and> j < length sphs \<longrightarrow>
                       sphere_intersect (sphs ! j) ray tMin tC = None"
        have "sphere_intersect (sphs ! j) ray tMin tC = None" if "i \<le> j" "j < length sphs" for j
        proof (cases "j = i")
          case True
          with None show ?thesis by simp
        next
          case False
          with that miss show ?thesis by simp
        qed
        with same show ?thesis by blast
      next
        fix k r
        assume k: "i + 1 \<le> k" "k < length sphs" "idx' = int k" "tC' = Fin r"
          and r: "tMin \<le> r" "dbl_le (Fin r) tC" "?hit k = Some (Fin r)"
          and least: "\<forall>j r'. i + 1 \<le> j \<and> j < length sphs \<and> ?hit j = Some (Fin r') \<longrightarrow> r \<le> r'"
          and strict: "\<forall>j r'. k < j \<and> j < length sphs \<and> ?hit j = Some (Fin r') \<longrightarrow> r < r'"
        have "r \<le> r'" if "i \<le> j" "j < length sphs" "?hit j = Some (Fin r')" for j r'
        proof (cases "j = i")
          case True
          with that have "\<not> dbl_le (Fin r') tC"
            using far by simp
          with r(2) "1.prems"(2) show ?thesis
            by (cases tC) auto
        next
          case False
          with that least show ?thesis
            by (metis Suc_eq_plus1 Suc_leI le_neq_implies_less)
        qed
        with k r strict show ?thesis
          by (intro disjI2 exI [of _ k] exI [of _ r]) auto
      qed
    next
      case (Some t)
      with inb "1.prems"(1)
      have rec: "scene_intersect_loop sphs ray tMin (i + 1) t (int i) = (tC', idx')"
        by (simp add: scene_intersect_loop.simps [of sphs ray tMin i tC idx])
      from sphere_intersect_Some_Fin [OF Some]
      obtain r0 where r0: "t = Fin r0" "tMin \<le> r0" "dbl_le (Fin r0) tC"
        by blast
      have hit_i: "?hit i = Some (Fin r0)"
        using sphere_intersect_Some_PInf [OF Some] r0(1) by simp
      have fin: "t = PInf \<or> (\<exists>m. t = Fin m)"
        using r0(1) by simp
      from "1.IH"(2) [OF inb Some rec fin]
      show ?thesis
      proof (elim disjE exE conjE)
        assume same: "tC' = t" "idx' = int i"
          and miss: "\<forall>j. i + 1 \<le> j \<and> j < length sphs \<longrightarrow>
                       sphere_intersect (sphs ! j) ray tMin t = None"
        have later: "r0 < r'" if "i < j" "j < length sphs" "?hit j = Some (Fin r')" for j r'
        proof -
          from that miss have "sphere_intersect (sphs ! j) ray tMin t = None"
            by simp
          from sphere_intersect_None_PInf [OF this that(3)] show ?thesis
            by (simp add: r0(1))
        qed
        have "r0 \<le> r'" if "i \<le> j" "j < length sphs" "?hit j = Some (Fin r')" for j r'
        proof (cases "j = i")
          case True
          with that hit_i show ?thesis by simp
        next
          case False
          with that later [of j r'] show ?thesis by simp
        qed
        with same r0 hit_i inb later show ?thesis
          by (intro disjI2 exI [of _ i] exI [of _ r0]) auto
      next
        fix k r
        assume k: "i + 1 \<le> k" "k < length sphs" "idx' = int k" "tC' = Fin r"
          and r: "tMin \<le> r" "dbl_le (Fin r) t" "?hit k = Some (Fin r)"
          and least: "\<forall>j r'. i + 1 \<le> j \<and> j < length sphs \<and> ?hit j = Some (Fin r') \<longrightarrow> r \<le> r'"
          and strict: "\<forall>j r'. k < j \<and> j < length sphs \<and> ?hit j = Some (Fin r') \<longrightarrow> r < r'"
        from r(2) r0(1) have le: "r \<le> r0"
          by simp
        then have rtC: "dbl_le (Fin r) tC"
          using r0(3) by (rule dbl_le_Fin_mono)
        have "r \<le> r'" if "i \<le> j" "j < length sphs" "?hit j = Some (Fin r')" for j r'
        proof (cases "j = i")
          case True
          with that hit_i le show ?thesis by simp
        next
          case False
          with that least show ?thesis
            by (metis Suc_eq_plus1 Suc_leI le_neq_implies_less)
        qed
        with k r rtC strict show ?thesis
          by (intro disjI2 exI [of _ k] exI [of _ r]) auto
      qed
    qed
  qed
qed


lemma scene_intersect_cases:
  "(scene_intersect sc ray tMin = (False, PInf, - 1)
      \<and> (\<forall>j < length (spheres sc). sphere_intersect (spheres sc ! j) ray tMin PInf = None))
   \<or> (\<exists>k r. k < length (spheres sc)
          \<and> scene_intersect sc ray tMin = (True, Fin r, int k)
          \<and> tMin \<le> r
          \<and> sphere_intersect (spheres sc ! k) ray tMin PInf = Some (Fin r)
          \<and> (\<forall>j r'. j < length (spheres sc)
                  \<and> sphere_intersect (spheres sc ! j) ray tMin PInf = Some (Fin r') \<longrightarrow> r \<le> r')
          \<and> (\<forall>j r'. k < j \<and> j < length (spheres sc)
                  \<and> sphere_intersect (spheres sc ! j) ray tMin PInf = Some (Fin r') \<longrightarrow> r < r'))"
proof -
  obtain tC' idx' where
    loop: "scene_intersect_loop (spheres sc) ray tMin 0 PInf (- 1) = (tC', idx')"
    by (cases "scene_intersect_loop (spheres sc) ray tMin 0 PInf (- 1)")
  have res: "scene_intersect sc ray tMin = (idx' \<noteq> - 1, tC', idx')"
    by (simp add: scene_intersect_def loop)
  have "(tC' = PInf \<and> idx' = - 1
          \<and> (\<forall>j < length (spheres sc). sphere_intersect (spheres sc ! j) ray tMin PInf = None))
       \<or> (\<exists>k r. k < length (spheres sc) \<and> idx' = int k \<and> tC' = Fin r \<and> tMin \<le> r
             \<and> sphere_intersect (spheres sc ! k) ray tMin PInf = Some (Fin r)
             \<and> (\<forall>j r'. j < length (spheres sc)
                     \<and> sphere_intersect (spheres sc ! j) ray tMin PInf = Some (Fin r') \<longrightarrow> r \<le> r')
             \<and> (\<forall>j r'. k < j \<and> j < length (spheres sc)
                     \<and> sphere_intersect (spheres sc ! j) ray tMin PInf = Some (Fin r') \<longrightarrow> r < r'))"
    using scene_intersect_loop_result [OF loop] by simp
  then show ?thesis
  proof (elim disjE exE conjE)
    assume "tC' = PInf" "idx' = - 1"
      and "\<forall>j < length (spheres sc). sphere_intersect (spheres sc ! j) ray tMin PInf = None"
    with res show ?thesis
      by (intro disjI1) simp
  next
    fix k r
    assume "k < length (spheres sc)" "idx' = int k" "tC' = Fin r" "tMin \<le> r"
      "sphere_intersect (spheres sc ! k) ray tMin PInf = Some (Fin r)"
      "\<forall>j r'. j < length (spheres sc)
          \<and> sphere_intersect (spheres sc ! j) ray tMin PInf = Some (Fin r') \<longrightarrow> r \<le> r'"
      "\<forall>j r'. k < j \<and> j < length (spheres sc)
          \<and> sphere_intersect (spheres sc ! j) ray tMin PInf = Some (Fin r') \<longrightarrow> r < r'"
    with res show ?thesis
      by (intro disjI2 exI [of _ k] exI [of _ r]) simp
  qed
qed

lemma sphere_intersect_PInf_Some:
  "sphere_intersect s ray tMin PInf \<noteq> None \<longleftrightarrow> (\<exists>r. sphere_intersect s ray tMin PInf = Some (Fin r))"
  using sphere_intersect_Some_Fin [of s ray tMin PInf] by auto

lemma scene_intersect_hit_iff:
  "fst (scene_intersect sc ray tMin) \<longleftrightarrow>
     (\<exists>s \<in> set (spheres sc). sphere_intersect s ray tMin PInf \<noteq> None)"
  using scene_intersect_cases [of sc ray tMin]
proof (elim disjE exE conjE)
  assume "scene_intersect sc ray tMin = (False, PInf, - 1)"
    and "\<forall>j<length (spheres sc). sphere_intersect (spheres sc ! j) ray tMin PInf = None"
  then show ?thesis
    by (auto simp: in_set_conv_nth)
next
  fix k r
  assume k: "k < length (spheres sc)" "scene_intersect sc ray tMin = (True, Fin r, int k)"
    "sphere_intersect (spheres sc ! k) ray tMin PInf = Some (Fin r)"
  then have "spheres sc ! k \<in> set (spheres sc)"
    by simp
  with k show ?thesis
    by force
qed

lemma scene_intersect_least:
  assumes "scene_intersect sc ray tMin = (True, Fin r, idx)"
  shows "(\<exists>s \<in> set (spheres sc). sphere_intersect s ray tMin PInf = Some (Fin r))
       \<and> (\<forall>s \<in> set (spheres sc). \<forall>r'. sphere_intersect s ray tMin PInf = Some (Fin r') \<longrightarrow> r \<le> r')"
  using scene_intersect_cases [of sc ray tMin]
proof (elim disjE exE conjE)
  assume "scene_intersect sc ray tMin = (False, PInf, - 1)"
  with assms show ?thesis by simp
next
  fix k r0
  assume k: "k < length (spheres sc)" "scene_intersect sc ray tMin = (True, Fin r0, int k)"
    "sphere_intersect (spheres sc ! k) ray tMin PInf = Some (Fin r0)"
    and least: "\<forall>j r'. j < length (spheres sc)
          \<and> sphere_intersect (spheres sc ! j) ray tMin PInf = Some (Fin r') \<longrightarrow> r0 \<le> r'"
  from k(2) assms have r: "r0 = r"
    by simp
  have "spheres sc ! k \<in> set (spheres sc)"
    using k(1) by simp
  with k(3) r have ex: "\<exists>s \<in> set (spheres sc). sphere_intersect s ray tMin PInf = Some (Fin r)"
    by blast
  have "r \<le> r'" if "s \<in> set (spheres sc)" "sphere_intersect s ray tMin PInf = Some (Fin r')" for s r'
  proof -
    from that(1) obtain j where "j < length (spheres sc)" "spheres sc ! j = s"
      by (auto simp: in_set_conv_nth)
    with that(2) least r show ?thesis
      by blast
  qed
  with ex show ?thesis
    by blast
qed

lemma scene_intersect_same_set:
  assumes "set (spheres sc') = set (spheres sc)"
  shows "fst (scene_intersect sc' ray tMin) = fst (scene_intersect sc ray tMin)
       \<and> fst (snd (scene_intersect sc' ray tMin)) = fst (snd (scene_intersect sc ray tMin))"
proof -
  have hit: "fst (scene_intersect sc' ray tMin) = fst (scene_intersect sc ray tMin)"
    by (simp add: scene_intersect_hit_iff assms)
  consider (miss) "scene_intersect sc ray tMin = (False, PInf, - 1)"
    | (hit) k r where "scene_intersect sc ray tMin = (True, Fin r, int k)"
    using scene_intersect_cases [of sc ray tMin] by blast
  then show ?thesis
  proof cases
    case miss
    with hit have "\<not> fst (scene_intersect sc' ray tMin)"
      by simp
    with scene_intersect_cases [of sc' ray tMin]
    have "scene_intersect sc' ray tMin = (False, PInf, - 1)"
      by auto
    with miss show ?thesis
      by simp
  next
    case (hit k r)
    with \<open>fst (scene_intersect sc' ray tMin) = fst (scene_intersect sc ray tMin)\<close>
    have "fst (scene_intersect sc' ray tMin)"
      by simp
    with scene_intersect_cases [of sc' ray tMin]
    obtain k' r' where hit': "scene_intersect sc' ray tMin = (True, Fin r', int k')"
      by auto
    from scene_intersect_least [OF hit] scene_intersect_least [OF hit'] assms
    have "r \<le> r'" "r' \<le> r"
      by blast+
    with hit hit' show ?thesis
      by simp
  qed
qed


lemma ex2_quad:
  "quad_b ex_sphere2 ex_ray = - 12" "quad_c ex_sphere2 ex_ray = 32"
  by (simp_all add: quad_b_def quad_c_def ex_ray_def ex_sphere2_def dot_def vec_sub_def)

lemma ex2_roots:
  "discr ex_sphere2 ex_ray = 16" "root0 ex_sphere2 ex_ray = 4" "root1 ex_sphere2 ex_ray = 8"
  by (simp_all add: discr_def root0_def root1_def ex_quad ex2_quad)

lemma ex_sphere_hits:
  "tMin \<le> 4 \<Longrightarrow> sphere_intersect ex_sphere ex_ray tMin tMax =
     (if dbl_le (Fin 4) tMax then Some (Fin 4)
      else if dbl_le (Fin 6) tMax then Some (Fin 6) else None)"
  "tMin \<le> 4 \<Longrightarrow> sphere_intersect ex_sphere2 ex_ray tMin tMax =
     (if dbl_le (Fin 4) tMax then Some (Fin 4)
      else if dbl_le (Fin 8) tMax then Some (Fin 8) else None)"
  by (simp_all add: sphere_intersect_unfold ex_roots ex2_roots ex_quad)

lemma ex_scene_intersect: "scene_intersect ex_scene ex_ray 0.001 = (True, Fin 4, 1)"
  by (simp add: scene_intersect_def ex_scene_def scene_intersect_loop.simps ex_sphere_hits)

lemma ex_scene_swapped_intersect:
  "scene_intersect (ex_scene\<lparr>spheres := [ex_sphere2, ex_sphere]\<rparr>) ex_ray 0.001 = (True, Fin 4, 1)"
  by (simp add: scene_intersect_def ex_scene_def scene_intersect_loop.simps ex_sphere_hits)

text \<open>
  C1, as stated, fails on ties. The two spheres of \<open>ex_scene\<close> are both hit by \<open>ex_ray\<close>
  at distance 4; \<open>scene_intersect\<close> returns index 1, the sphere tested last, and not
  index 0, the sphere tested first. With the two spheres in the other order it returns
  index 1 again, which is then the other sphere. (\<open>ex_sphere\<close> is the sphere added first:
  \<open>addSphere\<close> appends.)
\<close>

theorem scene_intersect_tie_counterexample:
  "spheres ex_scene = [ex_sphere, ex_sphere2]
   \<and> sphere_intersect ex_sphere ex_ray 0.001 PInf = Some (Fin 4)
   \<and> sphere_intersect ex_sphere2 ex_ray 0.001 PInf = Some (Fin 4)
   \<and> scene_intersect ex_scene ex_ray 0.001 = (True, Fin 4, 1)
   \<and> snd (snd (scene_intersect ex_scene ex_ray 0.001)) \<noteq> 0
   \<and> scene_intersect (ex_scene\<lparr>spheres := [ex_sphere2, ex_sphere]\<rparr>) ex_ray 0.001
       = (True, Fin 4, 1)
   \<and> spheres (addSphere (addSphere mkScene ex_sphere) ex_sphere2) = spheres ex_scene"
  using ex_scene_intersect ex_scene_swapped_intersect ex_sphere_hits [of "0.001" PInf]
  by (simp add: ex_scene_def addSphere_def mkScene_def)

text \<open>
  C1, amended. \<open>scene_intersect\<close> reports a hit exactly when some sphere of the scene is
  hit at a distance of at least \<open>tMin\<close>. The distance it returns is then the least of
  the distances at which the spheres are hit, and the hit flag and the distance are the
  same for every reordering of the spheres. The index it returns is that of a sphere hit
  at this least distance, and every sphere tested after it is hit strictly farther away:
  among spheres hit at exactly the same least distance, the one tested last wins.
\<close>

theorem scene_intersect_closest:
  assumes "scene_intersect sc ray tMin = (hit, tClosest, sphereIndex)"
  shows "(hit \<longleftrightarrow> (\<exists>s \<in> set (spheres sc). sphere_intersect s ray tMin PInf \<noteq> None))
    \<and> (hit \<longrightarrow>
         (\<exists>k r. sphereIndex = int k \<and> k < length (spheres sc) \<and> tClosest = Fin r \<and> tMin \<le> r
            \<and> sphere_intersect (spheres sc ! k) ray tMin PInf = Some (Fin r)
            \<and> (\<forall>j r'. j < length (spheres sc)
                    \<and> sphere_intersect (spheres sc ! j) ray tMin PInf = Some (Fin r') \<longrightarrow> r \<le> r')
            \<and> (\<forall>j r'. k < j \<and> j < length (spheres sc)
                    \<and> sphere_intersect (spheres sc ! j) ray tMin PInf = Some (Fin r') \<longrightarrow> r < r')))
    \<and> (\<forall>sc'. mset (spheres sc') = mset (spheres sc) \<longrightarrow>
           fst (scene_intersect sc' ray tMin) = hit
           \<and> fst (snd (scene_intersect sc' ray tMin)) = tClosest)"
proof -
  have a: "hit \<longleftrightarrow> (\<exists>s \<in> set (spheres sc). sphere_intersect s ray tMin PInf \<noteq> None)"
    using scene_intersect_hit_iff [of sc ray tMin] assms by simp
  have b: "\<exists>k r. sphereIndex = int k \<and> k < length (spheres sc) \<and> tClosest = Fin r \<and> tMin \<le> r
            \<and> sphere_intersect (spheres sc ! k) ray tMin PInf = Some (Fin r)
            \<and> (\<forall>j r'. j < length (spheres sc)
                    \<and> sphere_intersect (spheres sc ! j) ray tMin PInf = Some (Fin r') \<longrightarrow> r \<le> r')
            \<and> (\<forall>j r'. k < j \<and> j < length (spheres sc)
                    \<and> sphere_intersect (spheres sc ! j) ray tMin PInf = Some (Fin r') \<longrightarrow> r < r')"
    if hit
    using scene_intersect_cases [of sc ray tMin] assms that by auto
  have c: "fst (scene_intersect sc' ray tMin) = hit
           \<and> fst (snd (scene_intersect sc' ray tMin)) = tClosest"
    if "mset (spheres sc') = mset (spheres sc)" for sc'
  proof -
    from that have "set (spheres sc') = set (spheres sc)"
      by (rule mset_eq_setD)
    from scene_intersect_same_set [OF this, of ray tMin] assms show ?thesis
      by simp
  qed
  from a b c show ?thesis
    by blast
qed

theorem scene_intersect_closest_witness:
  "scene_intersect ex_scene ex_ray 0.001 = (True, Fin 4, 1)
   \<and> sphere_intersect (spheres ex_scene ! 0) ex_ray 0.001 PInf = Some (Fin 4)
   \<and> sphere_intersect (spheres ex_scene ! 1) ex_ray 0.001 PInf = Some (Fin 4)
   \<and> mset (spheres (ex_scene\<lparr>spheres := [ex_sphere2, ex_sphere]\<rparr>)) = mset (spheres ex_scene)
   \<and> fst (snd (scene_intersect (ex_scene\<lparr>spheres := [ex_sphere2, ex_sphere]\<rparr>) ex_ray 0.001)) = Fin 4"
proof -
  have m: "mset (spheres (ex_scene\<lparr>spheres := [ex_sphere2, ex_sphere]\<rparr>)) = mset (spheres ex_scene)"
    by (simp add: ex_scene_def)
  have h: "sphere_intersect (spheres ex_scene ! 0) ex_ray 0.001 PInf = Some (Fin 4)"
    "sphere_intersect (spheres ex_scene ! 1) ex_ray 0.001 PInf = Some (Fin 4)"
    using ex_sphere_hits [of "0.001" PInf] by (simp_all add: ex_scene_def)
  from scene_intersect_closest [OF ex_scene_intersect] m h ex_scene_intersect show ?thesis
    by simp
qed

section \<open>Shadow query\<close>

lemma mkRay_eq: "mkRay orig dir = Inr \<lparr>origin = orig, direction = unit_of dir\<rparr>"
  by (simp add: mkRay_def normalize_unit_of)

lemma getNormal_eq: "getNormal s p = Inr (unit_of (vec_sub p (center s)))"
  by (simp add: getNormal_def normalize_unit_of)

lemma scene_intersect_shape:
  "scene_intersect sc ray tMin = (False, PInf, - 1)
   \<or> (\<exists>k r. k < length (spheres sc) \<and> tMin \<le> r
          \<and> scene_intersect sc ray tMin = (True, Fin r, int k))"
  using scene_intersect_cases [of sc ray tMin] by blast

lemma isInShadow_eq:
  "isInShadow sc p l =
     Inr (\<exists>t idx. scene_intersect sc \<lparr>origin = p, direction = unit_of (vec_sub l p)\<rparr> 0.001
                     = (True, Fin t, idx)
                  \<and> t < vec_length (vec_sub l p))"
  using scene_intersect_shape [of sc "\<lparr>origin = p, direction = unit_of (vec_sub l p)\<rparr>" "0.001"]
  by (auto simp: isInShadow_def mkRay_eq Let_def)

text \<open>
  C2. The shadow ray from the point toward the light always exists, and \<open>isInShadow\<close>
  always returns. It returns true exactly when the closest intersection of the scene
  along that ray, with \<open>tMin = 0.001\<close>, exists at a distance strictly less than the
  distance from the point to the light; a closest intersection at a distance equal to
  or beyond the light's gives false. Equivalently, it returns true exactly when some
  sphere of the scene is hit by that ray before the light.
\<close>

theorem isInShadow_iff:
  "\<exists>ray. mkRay point (vec_sub lightPos point) = Inr ray
     \<and> (\<exists>b. isInShadow sc point lightPos = Inr b)
     \<and> (isInShadow sc point lightPos = Inr True \<longleftrightarrow>
          (\<exists>t idx. scene_intersect sc ray 0.001 = (True, Fin t, idx)
                   \<and> t < vec_length (vec_sub lightPos point)))
     \<and> (\<forall>t idx. scene_intersect sc ray 0.001 = (True, Fin t, idx)
                   \<and> vec_length (vec_sub lightPos point) \<le> t
                 \<longrightarrow> isInShadow sc point lightPos = Inr False)
     \<and> (fst (scene_intersect sc ray 0.001) = False \<longrightarrow> isInShadow sc point lightPos = Inr False)
     \<and> (isInShadow sc point lightPos = Inr True \<longleftrightarrow>
          (\<exists>s \<in> set (spheres sc). \<exists>t. sphere_intersect s ray 0.001 PInf = Some (Fin t)
                   \<and> t < vec_length (vec_sub lightPos point)))"
proof -
  let ?ray = "\<lparr>origin = point, direction = unit_of (vec_sub lightPos point)\<rparr>"
  let ?d = "vec_length (vec_sub lightPos point)"
  have a: "isInShadow sc point lightPos = Inr True \<longleftrightarrow>
          (\<exists>t idx. scene_intersect sc ?ray 0.001 = (True, Fin t, idx) \<and> t < ?d)"
    by (simp add: isInShadow_eq)
  have b: "isInShadow sc point lightPos = Inr False"
    if "scene_intersect sc ?ray 0.001 = (True, Fin t, idx)" "?d \<le> t" for t idx
    using that by (simp add: isInShadow_eq)
  have c: "isInShadow sc point lightPos = Inr False" if "fst (scene_intersect sc ?ray 0.001) = False"
    using that by (auto simp: isInShadow_eq)
  have d: "(\<exists>t idx. scene_intersect sc ?ray 0.001 = (True, Fin t, idx) \<and> t < ?d) \<longleftrightarrow>
          (\<exists>s \<in> set (spheres sc). \<exists>t. sphere_intersect s ?ray 0.001 PInf = Some (Fin t) \<and> t < ?d)"
  proof
    assume "\<exists>t idx. scene_intersect sc ?ray 0.001 = (True, Fin t, idx) \<and> t < ?d"
    then obtain t idx where h: "scene_intersect sc ?ray 0.001 = (True, Fin t, idx)" and lt: "t < ?d"
      by blast
    from scene_intersect_least [OF h] lt
    show "\<exists>s \<in> set (spheres sc). \<exists>t. sphere_intersect s ?ray 0.001 PInf = Some (Fin t) \<and> t < ?d"
      by blast
  next
    assume "\<exists>s \<in> set (spheres sc). \<exists>t. sphere_intersect s ?ray 0.001 PInf = Some (Fin t) \<and> t < ?d"
    then obtain s t where s: "s \<in> set (spheres sc)"
      and t: "sphere_intersect s ?ray 0.001 PInf = Some (Fin t)" "t < ?d"
      by blast
    from s t(1) have "fst (scene_intersect sc ?ray 0.001)"
      by (auto simp: scene_intersect_hit_iff)
    with scene_intersect_shape [of sc ?ray "0.001"]
    obtain k r where h: "scene_intersect sc ?ray 0.001 = (True, Fin r, int k)"
      by auto
    from scene_intersect_least [OF h] s t(1) have "r \<le> t"
      by blast
    with t(2) h show "\<exists>t idx. scene_intersect sc ?ray 0.001 = (True, Fin t, idx) \<and> t < ?d"
      by (intro exI [of _ r] exI [of _ "int k"]) simp
  qed
  have e: "mkRay point (vec_sub lightPos point) = Inr ?ray"
    by (rule mkRay_eq)
  have f: "\<exists>b. isInShadow sc point lightPos = Inr b"
    by (simp add: isInShadow_eq)
  show ?thesis
    apply (rule exI [of _ ?ray])
    using a b c d e f by blast
qed

lemma ex_mkRay:
  "mkRay \<lparr>x = 0, y = 0, z = 5\<rparr> (vec_sub \<lparr>x = 0, y = 0, z = 0\<rparr> \<lparr>x = 0, y = 0, z = 5\<rparr>) = Inr ex_ray"
  "mkRay \<lparr>x = 0, y = 0, z = 5\<rparr> (vec_sub \<lparr>x = 0, y = 0, z = 1\<rparr> \<lparr>x = 0, y = 0, z = 5\<rparr>) = Inr ex_ray"
  "mkRay \<lparr>x = 0, y = 0, z = 5\<rparr> (vec_sub \<lparr>x = 0, y = 0, z = 2\<rparr> \<lparr>x = 0, y = 0, z = 5\<rparr>) = Inr ex_ray"
  by (simp_all add: mkRay_def normalize_def vec_length_def vec_div_def vec_sub_def ex_ray_def)

lemma ex_dist:
  "vec_length (vec_sub \<lparr>x = 0, y = 0, z = 0\<rparr> \<lparr>x = 0, y = 0, z = 5\<rparr>) = 5"
  "vec_length (vec_sub \<lparr>x = 0, y = 0, z = 1\<rparr> \<lparr>x = 0, y = 0, z = 5\<rparr>) = 4"
  "vec_length (vec_sub \<lparr>x = 0, y = 0, z = 2\<rparr> \<lparr>x = 0, y = 0, z = 5\<rparr>) = 3"
  by (simp_all add: vec_length_def vec_sub_def)

theorem isInShadow_iff_witness:
  "isInShadow ex_scene \<lparr>x = 0, y = 0, z = 5\<rparr> \<lparr>x = 0, y = 0, z = 0\<rparr> = Inr True
   \<and> isInShadow ex_scene \<lparr>x = 0, y = 0, z = 5\<rparr> \<lparr>x = 0, y = 0, z = 1\<rparr> = Inr False
   \<and> isInShadow ex_scene \<lparr>x = 0, y = 0, z = 5\<rparr> \<lparr>x = 0, y = 0, z = 2\<rparr> = Inr False
   \<and> scene_intersect ex_scene ex_ray 0.001 = (True, Fin 4, 1)
   \<and> vec_length (vec_sub \<lparr>x = 0, y = 0, z = 0\<rparr> \<lparr>x = 0, y = 0, z = 5\<rparr>) = 5
   \<and> vec_length (vec_sub \<lparr>x = 0, y = 0, z = 1\<rparr> \<lparr>x = 0, y = 0, z = 5\<rparr>) = 4"
  using isInShadow_iff [of "\<lparr>x = 0, y = 0, z = 5\<rparr>" "\<lparr>x = 0, y = 0, z = 0\<rparr>" ex_scene]
    isInShadow_iff [of "\<lparr>x = 0, y = 0, z = 5\<rparr>" "\<lparr>x = 0, y = 0, z = 1\<rparr>" ex_scene]
    isInShadow_iff [of "\<lparr>x = 0, y = 0, z = 5\<rparr>" "\<lparr>x = 0, y = 0, z = 2\<rparr>" ex_scene]
    ex_mkRay ex_dist ex_scene_intersect
  by auto


section \<open>Camera rays\<close>

lemma getRay_eq:
  "getRay cam u v w h =
     (if h = 0 \<or> w = 0 then Inl NonFinite
      else Inr \<lparr>origin = Camera.position cam,
                direction = unit_of (vec_add (vec_add (cam_forward cam)
                                                (vec_scale (cam_right cam) (ndc_x cam u w h)))
                                       (vec_scale (cam_trueUp cam) (ndc_y cam v h)))\<rparr>)"
  by (simp add: getRay_def normalize_unit_of mkRay_eq Let_def unit_of_idem
      cam_forward_def cam_right_def cam_trueUp_def cross_def ndc_x_def ndc_y_def cam_scale_def)










lemma ex_camera_basis:
  "cam_forward ex_camera = \<lparr>x = 0, y = 0, z = - 1\<rparr>"
  "cam_right ex_camera = \<lparr>x = 1, y = 0, z = 0\<rparr>"
  "cam_trueUp ex_camera = \<lparr>x = 0, y = 1, z = 0\<rparr>"
proof -
  show f: "cam_forward ex_camera = \<lparr>x = 0, y = 0, z = - 1\<rparr>"
    by (simp add: cam_forward_def ex_camera_def unit_of_def vec_sub_def vec_length_def Vec3_zero_def)
  show r: "cam_right ex_camera = \<lparr>x = 1, y = 0, z = 0\<rparr>"
    by (simp add: cam_right_def f cross_def)
       (simp add: ex_camera_def unit_of_def vec_length_def Vec3_zero_def)
  show "cam_trueUp ex_camera = \<lparr>x = 0, y = 1, z = 0\<rparr>"
    by (simp add: cam_trueUp_def f r cross_def)
qed


section \<open>The pixel loops\<close>

lemma pixel_index_less:
  fixes w h px py :: int
  assumes "0 \<le> px" "px < w" "0 \<le> py" "py < h"
  shows "py * w + px < w * h"
proof -
  have "py * w + px < py * w + w"
    using assms by simp
  also have "\<dots> = (py + 1) * w"
    by (simp add: algebra_simps)
  also have "\<dots> \<le> h * w"
    using assms by (intro mult_right_mono) simp_all
  finally show ?thesis
    by (simp add: mult.commute)
qed

lemma pixel_index_inj:
  fixes w px py qx qy :: int
  assumes "0 \<le> px" "px < w" "0 \<le> qx" "qx < w" "py * w + px = qy * w + qx"
  shows "px = qx \<and> py = qy"
proof -
  have "(py * w + px) mod w = px mod w" "(qy * w + qx) mod w = qx mod w"
    by simp_all
  moreover have "px mod w = px" "qx mod w = qx"
    using assms by simp_all
  ultimately have e: "px = qx"
    using assms(5) by simp
  with assms have "py * w = qy * w" "w \<noteq> 0"
    by auto
  then have "py = qy"
    by simp
  with e show ?thesis
    by simp
qed

lemma wf_image_setPixel: "wf_image img \<Longrightarrow> wf_image (setPixel img px py c)"
  by (simp add: wf_image_def setPixel_def)

lemma in_image_setPixel: "in_image (setPixel img px py c) qx qy = in_image img qx qy"
  by (simp add: in_image_def setPixel_def)

lemma getPixel_setPixel_same:
  assumes "wf_image img" "in_image img px py"
  shows "getPixel (setPixel img px py c) px py = c"
proof -
  have "nat (py * width img + px) < length (pixels img)"
    using assms pixel_index_less [of px "width img" py "height img"]
    by (simp add: wf_image_def in_image_def)
  with assms show ?thesis
    by (simp add: getPixel_def setPixel_def in_image_def)
qed

lemma getPixel_setPixel_other:
  assumes "in_image img px py" "in_image img qx qy" "qx \<noteq> px \<or> qy \<noteq> py"
  shows "getPixel (setPixel img px py c) qx qy = getPixel img qx qy"
proof -
  let ?w = "width img"
  have nn: "0 \<le> py * ?w + px" "0 \<le> qy * ?w + qx"
    using assms by (simp_all add: in_image_def)
  have "py * ?w + px \<noteq> qy * ?w + qx"
    using pixel_index_inj [of px ?w qx py qy] assms
    by (auto simp: in_image_def)
  with nn have "nat (py * ?w + px) \<noteq> nat (qy * ?w + qx)"
    by simp
  with assms(1,2) show ?thesis
    by (simp add: getPixel_def setPixel_def in_image_def)
qed

lemma render_cols_pixels:
  assumes "wf_image img" "0 \<le> py" "py < height img" "0 \<le> px"
    and "\<forall>q. px \<le> q \<and> q < width img \<longrightarrow> (\<exists>c. f (width img) (height img) q py = Inr c)"
  shows "\<exists>img'. render_cols f py px img = Inr img' \<and> wf_image img'
           \<and> width img' = width img \<and> height img' = height img
           \<and> (\<forall>qx qy. in_image img qx qy \<longrightarrow>
                 (if qy = py \<and> px \<le> qx
                  then f (width img) (height img) qx qy = Inr (getPixel img' qx qy)
                  else getPixel img' qx qy = getPixel img qx qy))"
  using assms
proof (induction f py px img rule: render_cols.induct)
  case (1 f py px img)
  show ?case
  proof (cases "px < width img")
    case False
    then have "render_cols f py px img = Inr img"
      by (simp add: render_cols.simps [of f py px img])
    with False "1.prems"(1) show ?thesis
      by (auto simp: in_image_def)
  next
    case True
    with "1.prems"(5) obtain c where c: "f (width img) (height img) px py = Inr c"
      by auto
    let ?img = "setPixel img px py c"
    have dims: "width ?img = width img" "height ?img = height img"
      by (simp_all add: setPixel_def)
    have here: "in_image img px py"
      using True "1.prems" by (simp add: in_image_def)
    note ih = "1.IH" [OF True c, unfolded dims in_image_setPixel]
    have "\<exists>img'. render_cols f py (px + 1) ?img = Inr img' \<and> wf_image img'
           \<and> width img' = width img \<and> height img' = height img
           \<and> (\<forall>qx qy. in_image img qx qy \<longrightarrow>
                 (if qy = py \<and> px + 1 \<le> qx
                  then f (width img) (height img) qx qy = Inr (getPixel img' qx qy)
                  else getPixel img' qx qy = getPixel ?img qx qy))"
    proof (rule ih)
      show "wf_image ?img"
        using "1.prems"(1) by (rule wf_image_setPixel)
      show "0 \<le> py" "py < height img" "0 \<le> px + 1"
        using "1.prems" by simp_all
      show "\<forall>q. px + 1 \<le> q \<and> q < width img \<longrightarrow>
              (\<exists>c. f (width img) (height img) q py = Inr c)"
        using "1.prems"(5) by simp
    qed
    then obtain img' where r: "render_cols f py (px + 1) ?img = Inr img'" "wf_image img'"
      "width img' = width img" "height img' = height img"
      and px': "\<forall>qx qy. in_image img qx qy \<longrightarrow>
                 (if qy = py \<and> px + 1 \<le> qx
                  then f (width img) (height img) qx qy = Inr (getPixel img' qx qy)
                  else getPixel img' qx qy = getPixel ?img qx qy)"
      by blast
    have res: "render_cols f py px img = Inr img'"
      using True c r(1) by (simp add: render_cols.simps [of f py px img])
    have "if qy = py \<and> px \<le> qx
          then f (width img) (height img) qx qy = Inr (getPixel img' qx qy)
          else getPixel img' qx qy = getPixel img qx qy"
      if q: "in_image img qx qy" for qx qy
    proof (cases "qx = px \<and> qy = py")
      case True
      with px' q have "getPixel img' qx qy = getPixel ?img qx qy"
        by auto
      also have "\<dots> = c"
        using True getPixel_setPixel_same [OF "1.prems"(1) here] by simp
      finally show ?thesis
        using True c by simp
    next
      case False
      from False have "qx \<noteq> px \<or> qy \<noteq> py"
        by blast
      then have "getPixel ?img qx qy = getPixel img qx qy"
        by (rule getPixel_setPixel_other [OF here q])
      with px' q False show ?thesis
        by (cases "qy = py \<and> px + 1 \<le> qx") auto
    qed
    with res r show ?thesis
      by blast
  qed
qed

lemma render_rows_pixels:
  assumes "wf_image img" "0 \<le> py"
    and "\<forall>qx qy. in_image img qx qy \<longrightarrow> (\<exists>c. f (width img) (height img) qx qy = Inr c)"
  shows "\<exists>img'. render_rows f py img = Inr img' \<and> wf_image img'
           \<and> width img' = width img \<and> height img' = height img
           \<and> (\<forall>qx qy. in_image img qx qy \<longrightarrow>
                 (if py \<le> qy
                  then f (width img) (height img) qx qy = Inr (getPixel img' qx qy)
                  else getPixel img' qx qy = getPixel img qx qy))"
  using assms
proof (induction f py img rule: render_rows.induct)
  case (1 f py img)
  show ?case
  proof (cases "py < height img")
    case False
    then have "render_rows f py img = Inr img"
      by (simp add: render_rows.simps [of f py img])
    with False "1.prems"(1) show ?thesis
      by (auto simp: in_image_def)
  next
    case True
    have tot: "\<forall>q. 0 \<le> q \<and> q < width img \<longrightarrow> (\<exists>c. f (width img) (height img) q py = Inr c)"
      using "1.prems" True by (simp add: in_image_def)
    have z: "(0 :: int) \<le> 0"
      by simp
    from render_cols_pixels [where f = f and img = img and py = py and px = 0, OF "1.prems"(1,2) True z tot]
    obtain img1 where c: "render_cols f py 0 img = Inr img1" "wf_image img1"
      "width img1 = width img" "height img1 = height img"
      and p1: "\<forall>qx qy. in_image img qx qy \<longrightarrow>
                 (if qy = py \<and> 0 \<le> qx
                  then f (width img) (height img) qx qy = Inr (getPixel img1 qx qy)
                  else getPixel img1 qx qy = getPixel img qx qy)"
      by blast
    have same: "in_image img1 qx qy = in_image img qx qy" for qx qy
      by (simp add: in_image_def c)
    note ih = "1.IH" [OF True c(1), unfolded c(3) c(4) same]
    have "\<exists>img'. render_rows f (py + 1) img1 = Inr img' \<and> wf_image img'
           \<and> width img' = width img \<and> height img' = height img
           \<and> (\<forall>qx qy. in_image img qx qy \<longrightarrow>
                 (if py + 1 \<le> qy
                  then f (width img) (height img) qx qy = Inr (getPixel img' qx qy)
                  else getPixel img' qx qy = getPixel img1 qx qy))"
    proof (rule ih)
      show "wf_image img1" by (rule c(2))
      show "0 \<le> py + 1" using "1.prems"(2) by simp
      show "\<forall>qx qy. in_image img qx qy \<longrightarrow> (\<exists>c. f (width img) (height img) qx qy = Inr c)"
        using "1.prems"(3) by simp
    qed
    then obtain img' where r: "render_rows f (py + 1) img1 = Inr img'" "wf_image img'"
      "width img' = width img" "height img' = height img"
      and p2: "\<forall>qx qy. in_image img qx qy \<longrightarrow>
                 (if py + 1 \<le> qy
                  then f (width img) (height img) qx qy = Inr (getPixel img' qx qy)
                  else getPixel img' qx qy = getPixel img1 qx qy)"
      by blast
    have res: "render_rows f py img = Inr img'"
      using True c(1) r(1) by (simp add: render_rows.simps [of f py img])
    have "if py \<le> qy
          then f (width img) (height img) qx qy = Inr (getPixel img' qx qy)
          else getPixel img' qx qy = getPixel img qx qy"
      if q: "in_image img qx qy" for qx qy
    proof -
      from q have qx0: "0 \<le> qx"
        by (simp add: in_image_def)
      consider "qy < py" | "qy = py" | "py + 1 \<le> qy"
        by linarith
      then show ?thesis
      proof cases
        case 1
        with p1 p2 q show ?thesis by auto
      next
        case 2
        with p2 q have "getPixel img' qx qy = getPixel img1 qx qy"
          by auto
        moreover from p1 q 2 qx0
        have "f (width img) (height img) qx qy = Inr (getPixel img1 qx qy)"
          by auto
        ultimately show ?thesis
          using 2 by simp
      next
        case 3
        with p2 q show ?thesis by auto
      qed
    qed
    with res r show ?thesis
      by blast
  qed
qed

lemma render_rows_image:
  assumes "wf_image img"
    and "\<forall>qx qy. in_image img qx qy \<longrightarrow> (\<exists>c. f (width img) (height img) qx qy = Inr c)"
  shows "\<exists>img'. render_rows f 0 img = Inr img' \<and> wf_image img'
           \<and> width img' = width img \<and> height img' = height img
           \<and> (\<forall>qx qy. in_image img qx qy \<longrightarrow>
                 f (width img) (height img) qx qy = Inr (getPixel img' qx qy))"
proof -
  have z: "(0 :: int) \<le> 0"
    by simp
  from render_rows_pixels [where f = f and img = img and py = 0, OF assms(1) z assms(2)]
  obtain img' where r: "render_rows f 0 img = Inr img'" "wf_image img'"
      "width img' = width img" "height img' = height img"
    and p: "\<forall>qx qy. in_image img qx qy \<longrightarrow>
                 (if 0 \<le> qy
                  then f (width img) (height img) qx qy = Inr (getPixel img' qx qy)
                  else getPixel img' qx qy = getPixel img qx qy)"
    by blast
  have "f (width img) (height img) qx qy = Inr (getPixel img' qx qy)" if "in_image img qx qy" for qx qy
    using p that by (auto simp: in_image_def)
  with r show ?thesis
    by blast
qed

section \<open>Shading: facts\<close>

lemma vec_add_assoc: "vec_add (vec_add u v) w = vec_add u (vec_add v w)"
  by (simp add: vec_add_def)

lemma vec_add_zero_right: "vec_add u Vec3_zero = u"
  by (simp add: vec_add_def Vec3_zero_def)

lemma vec_sum_Nil: "vec_sum [] = Vec3_zero"
  by (simp add: vec_sum_def)

lemma vec_sum_Cons: "vec_sum (v # vs) = vec_add v (vec_sum vs)"
  by (simp add: vec_sum_def)

lemma light_term_code:
  "vec_scale (vec_mul mc (Light.color l))
     (max 0 (dot n (unit_of (vec_sub (Light.position l) hp))) * intensity l)
   = light_term mc n hp l"
  by (simp add: light_term_def vec_scale_def mult.assoc)

lemma diffuse_lights_eq:
  "diffuse_lights ls hp n mc acc = Inr (vec_add acc (vec_sum (map (light_term mc n hp) ls)))"
proof (induction ls arbitrary: acc)
  case Nil
  show ?case
    by (simp add: vec_sum_Nil vec_add_zero_right)
next
  case (Cons l ls)
  show ?case
    by (simp add: normalize_unit_of Let_def Cons.IH light_term_code vec_sum_Cons vec_add_assoc)
qed

lemma isInShadow_total: "isInShadow sc p l = Inr True \<or> isInShadow sc p l = Inr False"
  by (cases "\<exists>t idx. scene_intersect sc \<lparr>origin = p, direction = unit_of (vec_sub l p)\<rparr> 0.001
                          = (True, Fin t, idx)
                       \<and> t < vec_length (vec_sub l p)")
     (simp_all only: isInShadow_eq simp_thms)

lemma shadow_lights_eq:
  "shadow_lights sc ls hp n mc acc =
     Inr (vec_add acc
            (vec_sum (map (light_term mc n hp)
                        (filter (\<lambda>l. isInShadow sc hp (Light.position l) = Inr False) ls))))"
proof (induction ls arbitrary: acc)
  case Nil
  show ?case
    by (simp add: vec_sum_Nil vec_add_zero_right)
next
  case (Cons l ls)
  from isInShadow_total [of sc hp "Light.position l"] show ?case
  proof
    assume "isInShadow sc hp (Light.position l) = Inr True"
    then show ?thesis
      by (simp add: Cons.IH)
  next
    assume "isInShadow sc hp (Light.position l) = Inr False"
    then show ?thesis
      by (simp add: normalize_unit_of Let_def Cons.IH light_term_code vec_sum_Cons vec_add_assoc)
  qed
qed

lemma sphere_at_nth: "k < length (spheres sc) \<Longrightarrow> sphere_at sc (int k) = Inr (spheres sc ! k)"
  by (simp add: sphere_at_def)

text \<open>The four colours when the camera ray misses, and when it hits.\<close>

lemma color_miss:
  assumes "getRay cam (real_of_int px) (real_of_int py) w h = Inr ray"
    and "scene_intersect sc ray 0.001 = (False, t, idx)"
  shows "renderDistance_color cam sc w h px py = Inr \<lparr>x = 0.5, y = 0.7, z = 1.0\<rparr>"
    and "renderMaterials_color cam sc w h px py = Inr \<lparr>x = 0.5, y = 0.7, z = 1.0\<rparr>"
    and "renderDiffuse_color cam sc w h px py = Inr \<lparr>x = 0.5, y = 0.7, z = 1.0\<rparr>"
    and "renderWithShadows_color cam sc w h px py = Inr \<lparr>x = 0.5, y = 0.7, z = 1.0\<rparr>"
  using assms
  by (simp_all add: renderDistance_color_def renderMaterials_color_def renderDiffuse_color_def
      renderWithShadows_color_def)

lemma color_hit:
  assumes "getRay cam (real_of_int px) (real_of_int py) w h = Inr ray"
    and "scene_intersect sc ray 0.001 = (True, Fin t, int k)"
    and "k < length (spheres sc)"
  shows "renderDistance_color cam sc w h px py =
           Inr \<lparr>x = 1 - min 1 (t / 20), y = 1 - min 1 (t / 20), z = 1 - min 1 (t / 20)\<rparr>"
    and "renderMaterials_color cam sc w h px py = Inr (Material.color (material (spheres sc ! k)))"
    and "renderDiffuse_color cam sc w h px py =
           Inr (shade sc (lights sc) (spheres sc ! k) (ray_at ray t))"
    and "renderWithShadows_color cam sc w h px py =
           Inr (shade sc
                  (filter (\<lambda>l. isInShadow sc (ray_at ray t) (Light.position l) = Inr False)
                     (lights sc))
                  (spheres sc ! k) (ray_at ray t))"
  using assms
  by (simp_all add: renderDistance_color_def renderMaterials_color_def renderDiffuse_color_def
      renderWithShadows_color_def sphere_at_nth getNormal_eq diffuse_lights_eq shadow_lights_eq
      shade_def Let_def)

lemma color_total:
  assumes "w \<noteq> 0" "h \<noteq> 0"
  shows "\<exists>c. renderDistance_color cam sc w h px py = Inr c"
    and "\<exists>c. renderMaterials_color cam sc w h px py = Inr c"
    and "\<exists>c. renderDiffuse_color cam sc w h px py = Inr c"
    and "\<exists>c. renderWithShadows_color cam sc w h px py = Inr c"
proof -
  obtain ray where ray: "getRay cam (real_of_int px) (real_of_int py) w h = Inr ray"
    using assms by (simp add: getRay_eq)
  from scene_intersect_shape [of sc ray "0.001"]
  have "(\<exists>c. renderDistance_color cam sc w h px py = Inr c)
      \<and> (\<exists>c. renderMaterials_color cam sc w h px py = Inr c)
      \<and> (\<exists>c. renderDiffuse_color cam sc w h px py = Inr c)
      \<and> (\<exists>c. renderWithShadows_color cam sc w h px py = Inr c)"
  proof (elim disjE exE conjE)
    assume "scene_intersect sc ray 0.001 = (False, PInf, - 1)"
    from color_miss [OF ray this] show ?thesis
      by simp
  next
    fix k r
    assume "k < length (spheres sc)" "scene_intersect sc ray 0.001 = (True, Fin r, int k)"
    from color_hit [OF ray this(2,1)] show ?thesis
      by simp
  qed
  then show "\<exists>c. renderDistance_color cam sc w h px py = Inr c"
    and "\<exists>c. renderMaterials_color cam sc w h px py = Inr c"
    and "\<exists>c. renderDiffuse_color cam sc w h px py = Inr c"
    and "\<exists>c. renderWithShadows_color cam sc w h px py = Inr c"
    by blast+
qed

lemma color_zero_size:
  assumes "w = 0 \<or> h = 0"
  shows "renderDistance_color cam sc w h px py = Inl NonFinite"
    and "renderMaterials_color cam sc w h px py = Inl NonFinite"
    and "renderDiffuse_color cam sc w h px py = Inl NonFinite"
    and "renderWithShadows_color cam sc w h px py = Inl NonFinite"
  using assms
  by (auto simp: renderDistance_color_def renderMaterials_color_def renderDiffuse_color_def
      renderWithShadows_color_def getRay_eq)


lemma in_image_nonzero: "in_image img px py \<Longrightarrow> width img \<noteq> 0 \<and> height img \<noteq> 0"
  by (auto simp: in_image_def)

lemma render_image:
  assumes "wf_image img"
  shows "\<exists>img'. renderDistance img cam sc = Inr img' \<and> wf_image img'
           \<and> width img' = width img \<and> height img' = height img
           \<and> (\<forall>px py. in_image img px py \<longrightarrow>
                 renderDistance_color cam sc (width img) (height img) px py
                   = Inr (getPixel img' px py))"
    and "\<exists>img'. renderMaterials img cam sc = Inr img' \<and> wf_image img'
           \<and> width img' = width img \<and> height img' = height img
           \<and> (\<forall>px py. in_image img px py \<longrightarrow>
                 renderMaterials_color cam sc (width img) (height img) px py
                   = Inr (getPixel img' px py))"
    and "\<exists>img'. renderDiffuse img cam sc = Inr img' \<and> wf_image img'
           \<and> width img' = width img \<and> height img' = height img
           \<and> (\<forall>px py. in_image img px py \<longrightarrow>
                 renderDiffuse_color cam sc (width img) (height img) px py
                   = Inr (getPixel img' px py))"
    and "\<exists>img'. renderWithShadows img cam sc = Inr img' \<and> wf_image img'
           \<and> width img' = width img \<and> height img' = height img
           \<and> (\<forall>px py. in_image img px py \<longrightarrow>
                 renderWithShadows_color cam sc (width img) (height img) px py
                   = Inr (getPixel img' px py))"
  unfolding renderDistance_def renderMaterials_def renderDiffuse_def renderWithShadows_def
  using assms
  by (intro render_rows_image; simp add: color_total in_image_nonzero)+

lemma scene_intersect_empty:
  "spheres sc = [] \<Longrightarrow> scene_intersect sc ray tMin = (False, PInf, - 1)"
  by (simp add: scene_intersect_def scene_intersect_loop.simps)

lemma scene_intersect_lights_update:
  "scene_intersect (sc\<lparr>lights := ls\<rparr>) ray tMin = scene_intersect sc ray tMin"
  by (simp add: scene_intersect_def)

lemma shade_lights_update: "shade (sc\<lparr>lights := ls'\<rparr>) ls s hp = shade sc ls s hp"
  by (simp add: shade_def)

lemma light_term_backfacing:
  "dot n (unit_of (vec_sub (Light.position l) hp)) \<le> 0 \<Longrightarrow> light_term mc n hp l = Vec3_zero"
  by (simp add: light_term_def vec_scale_def Vec3_zero_def max_def)

section \<open>Claims about the scene query and the render modes\<close>

text \<open>
  C4. For a pixel whose camera ray hits a sphere, the colour of diffuse mode is
  \<open>ambient * materialColor\<close> plus, for every light of the scene, the term
  \<open>materialColor * light.color * max(0, normal \<bullet> toLight) * light.intensity\<close> with
  \<open>toLight = normalize(lightPosition - hitPoint)\<close>, where the material is that of the hit
  sphere, the hit point is the point of the ray at the returned distance and the normal
  is that of the sphere there. A light whose dot product is negative contributes the
  zero vector. The sum runs over all the lights of the scene, with no shadow test. This
  colour is the one \<open>renderDiffuse\<close> writes at the pixel.
\<close>

theorem renderDiffuse_color_formula:
  assumes "getRay cam (real_of_int px) (real_of_int py) w h = Inr ray"
    and "fst (scene_intersect sc ray 0.001)"
  shows "\<exists>t k. scene_intersect sc ray 0.001 = (True, Fin t, int k) \<and> k < length (spheres sc)
      \<and> (let s = spheres sc ! k;
              materialColor = Material.color (material s);
              hitPoint = ray_at ray t;
              normal = unit_of (vec_sub hitPoint (center s))
          in getNormal s hitPoint = Inr normal
           \<and> renderDiffuse_color cam sc w h px py =
               Inr (vec_add (vec_mul (ambientLight sc) materialColor)
                      (vec_sum (map (light_term materialColor normal hitPoint) (lights sc))))
           \<and> (\<forall>l. normalize (vec_sub (Light.position l) hitPoint)
                      = Inr (unit_of (vec_sub (Light.position l) hitPoint))
                  \<and> light_term materialColor normal hitPoint l =
                      vec_scale
                        (vec_scale (vec_mul materialColor (Light.color l))
                           (max 0 (dot normal (unit_of (vec_sub (Light.position l) hitPoint)))))
                        (intensity l)
                  \<and> (dot normal (unit_of (vec_sub (Light.position l) hitPoint)) < 0 \<longrightarrow>
                        light_term materialColor normal hitPoint l = \<lparr>x = 0, y = 0, z = 0\<rparr>))
           \<and> (\<forall>img. wf_image img \<and> in_image img px py \<and> width img = w \<and> height img = h \<longrightarrow>
                 (\<exists>img'. renderDiffuse img cam sc = Inr img'
                    \<and> getPixel img' px py =
                        vec_add (vec_mul (ambientLight sc) materialColor)
                          (vec_sum (map (light_term materialColor normal hitPoint) (lights sc))))))"
proof -
  from scene_intersect_shape [of sc ray "0.001"] assms(2)
  obtain k t where k: "k < length (spheres sc)"
    and hit: "scene_intersect sc ray 0.001 = (True, Fin t, int k)"
    by auto
  let ?s = "spheres sc ! k"
  let ?mc = "Material.color (material ?s)"
  let ?hp = "ray_at ray t"
  let ?n = "unit_of (vec_sub ?hp (center ?s))"
  let ?c = "vec_add (vec_mul (ambientLight sc) ?mc)
              (vec_sum (map (light_term ?mc ?n ?hp) (lights sc)))"
  have col: "renderDiffuse_color cam sc w h px py = Inr ?c"
    using color_hit(3) [OF assms(1) hit k] by (simp add: shade_def)
  have lights: "normalize (vec_sub (Light.position l) ?hp)
                      = Inr (unit_of (vec_sub (Light.position l) ?hp))
                  \<and> light_term ?mc ?n ?hp l =
                      vec_scale
                        (vec_scale (vec_mul ?mc (Light.color l))
                           (max 0 (dot ?n (unit_of (vec_sub (Light.position l) ?hp)))))
                        (intensity l)
                  \<and> (dot ?n (unit_of (vec_sub (Light.position l) ?hp)) < 0 \<longrightarrow>
                        light_term ?mc ?n ?hp l = \<lparr>x = 0, y = 0, z = 0\<rparr>)" for l
    using light_term_backfacing [of ?n l ?hp ?mc]
    by (simp add: normalize_unit_of light_term_def Vec3_zero_def)
  have img: "\<exists>img'. renderDiffuse img cam sc = Inr img' \<and> getPixel img' px py = ?c"
    if "wf_image img" "in_image img px py" "width img = w" "height img = h" for img
  proof -
    from render_image(3) [OF that(1), of cam sc]
    obtain img' where "renderDiffuse img cam sc = Inr img'"
      and "\<forall>px py. in_image img px py \<longrightarrow>
              renderDiffuse_color cam sc (width img) (height img) px py = Inr (getPixel img' px py)"
      by blast
    with that col show ?thesis
      by auto
  qed
  have nrm: "getNormal ?s ?hp = Inr ?n"
    by (rule getNormal_eq)
  show ?thesis
    unfolding Let_def
    apply (rule exI [of _ t], rule exI [of _ k])
    using k hit col lights img nrm
    by blast
qed

text \<open>
  C5. Shadow mode computes the colour of diffuse mode with the sum restricted to the
  lights for which \<open>isInShadow(hitPoint, light.position)\<close> is false: on a miss both give
  the background; on a hit both give \<open>ambient * materialColor\<close> plus the terms of the
  lights, all of them in diffuse mode and the unshadowed ones in shadow mode, so that
  the shadow-mode colour is the diffuse-mode colour of the scene with the shadowed
  lights removed. When no light of the scene is in shadow at the hit point, the two
  colours are equal, and so are the pixels the two render functions write.
\<close>

theorem renderWithShadows_refines_renderDiffuse:
  assumes "getRay cam (real_of_int px) (real_of_int py) w h = Inr ray"
  shows "(fst (scene_intersect sc ray 0.001) = False \<longrightarrow>
            renderWithShadows_color cam sc w h px py = renderDiffuse_color cam sc w h px py)
    \<and> (\<forall>t idx. scene_intersect sc ray 0.001 = (True, t, idx) \<longrightarrow>
          (\<exists>r s. t = Fin r \<and> sphere_at sc idx = Inr s
             \<and> (let hitPoint = ray_at ray r;
                     unshadowed = filter (\<lambda>l. isInShadow sc hitPoint (Light.position l) = Inr False)
                                    (lights sc)
                 in renderDiffuse_color cam sc w h px py = Inr (shade sc (lights sc) s hitPoint)
                  \<and> renderWithShadows_color cam sc w h px py = Inr (shade sc unshadowed s hitPoint)
                  \<and> renderWithShadows_color cam sc w h px py
                      = renderDiffuse_color cam (sc\<lparr>lights := unshadowed\<rparr>) w h px py
                  \<and> ((\<forall>l \<in> set (lights sc). isInShadow sc hitPoint (Light.position l) = Inr False)
                       \<longrightarrow> renderWithShadows_color cam sc w h px py
                            = renderDiffuse_color cam sc w h px py))))
    \<and> (\<forall>img. wf_image img \<and> in_image img px py \<and> width img = w \<and> height img = h \<longrightarrow>
          (\<exists>img1 img2. renderDiffuse img cam sc = Inr img1
             \<and> renderWithShadows img cam sc = Inr img2
             \<and> renderDiffuse_color cam sc w h px py = Inr (getPixel img1 px py)
             \<and> renderWithShadows_color cam sc w h px py = Inr (getPixel img2 px py)))"
proof -
  have miss: "renderWithShadows_color cam sc w h px py = renderDiffuse_color cam sc w h px py"
    if "fst (scene_intersect sc ray 0.001) = False"
  proof -
    from that obtain t idx where "scene_intersect sc ray 0.001 = (False, t, idx)"
      by (cases "scene_intersect sc ray 0.001") auto
    from color_miss(3,4) [OF assms this] show ?thesis
      by simp
  qed
  have hit: "\<exists>r s. t = Fin r \<and> sphere_at sc idx = Inr s
             \<and> (let hitPoint = ray_at ray r;
                     unshadowed = filter (\<lambda>l. isInShadow sc hitPoint (Light.position l) = Inr False)
                                    (lights sc)
                 in renderDiffuse_color cam sc w h px py = Inr (shade sc (lights sc) s hitPoint)
                  \<and> renderWithShadows_color cam sc w h px py = Inr (shade sc unshadowed s hitPoint)
                  \<and> renderWithShadows_color cam sc w h px py
                      = renderDiffuse_color cam (sc\<lparr>lights := unshadowed\<rparr>) w h px py
                  \<and> ((\<forall>l \<in> set (lights sc). isInShadow sc hitPoint (Light.position l) = Inr False)
                       \<longrightarrow> renderWithShadows_color cam sc w h px py
                            = renderDiffuse_color cam sc w h px py))"
    if h: "scene_intersect sc ray 0.001 = (True, t, idx)" for t idx
  proof -
    from scene_intersect_shape [of sc ray "0.001"] h
    obtain k r where k: "k < length (spheres sc)" and t: "t = Fin r" and idx: "idx = int k"
      by auto
    have h': "scene_intersect sc ray 0.001 = (True, Fin r, int k)"
      using h t idx by simp
    let ?hp = "ray_at ray r"
    let ?un = "filter (\<lambda>l. isInShadow sc ?hp (Light.position l) = Inr False) (lights sc)"
    let ?s = "spheres sc ! k"
    note c = color_hit(3,4) [OF assms h' k]
    have k': "k < length (spheres (sc\<lparr>lights := ?un\<rparr>))"
      using k by simp
    have h'': "scene_intersect (sc\<lparr>lights := ?un\<rparr>) ray 0.001 = (True, Fin r, int k)"
      using h' by (simp add: scene_intersect_lights_update)
    have d: "renderDiffuse_color cam (sc\<lparr>lights := ?un\<rparr>) w h px py = Inr (shade sc ?un ?s ?hp)"
      using color_hit(3) [OF assms h'' k'] by (simp add: shade_lights_update)
    have e: "renderWithShadows_color cam sc w h px py = renderDiffuse_color cam sc w h px py"
      if "\<forall>l \<in> set (lights sc). isInShadow sc ?hp (Light.position l) = Inr False"
    proof -
      from that have "?un = lights sc"
        by (simp add: filter_id_conv)
      with c show ?thesis
        by simp
    qed
    show ?thesis
      apply (rule exI [of _ r], rule exI [of _ ?s])
      using t idx k c d e
      by (simp add: Let_def sphere_at_nth)
  qed
  have img: "\<exists>img1 img2. renderDiffuse img cam sc = Inr img1
             \<and> renderWithShadows img cam sc = Inr img2
             \<and> renderDiffuse_color cam sc w h px py = Inr (getPixel img1 px py)
             \<and> renderWithShadows_color cam sc w h px py = Inr (getPixel img2 px py)"
    if "wf_image img" "in_image img px py" "width img = w" "height img = h" for img
    using render_image(3) [OF that(1), of cam sc] render_image(4) [OF that(1), of cam sc] that
    by blast
  from miss hit img show ?thesis
    by blast
qed

text \<open>
  C9. In each of the four render modes, a pixel whose camera ray meets no sphere gets the
  colour \<open>(0.5, 0.7, 1.0)\<close>, the same in the four modes, and that is the colour the
  render function writes at this pixel of the image. When the scene has no sphere this
  holds for every pixel of the image.
\<close>

theorem background_on_miss:
  "(getRay cam (real_of_int px) (real_of_int py) w h = Inr ray
      \<and> fst (scene_intersect sc ray 0.001) = False \<longrightarrow>
        renderDistance_color cam sc w h px py = Inr \<lparr>x = 0.5, y = 0.7, z = 1.0\<rparr>
        \<and> renderMaterials_color cam sc w h px py = Inr \<lparr>x = 0.5, y = 0.7, z = 1.0\<rparr>
        \<and> renderDiffuse_color cam sc w h px py = Inr \<lparr>x = 0.5, y = 0.7, z = 1.0\<rparr>
        \<and> renderWithShadows_color cam sc w h px py = Inr \<lparr>x = 0.5, y = 0.7, z = 1.0\<rparr>)
   \<and> (wf_image img \<longrightarrow>
        (\<exists>img1 img2 img3 img4.
           renderDistance img cam sc = Inr img1 \<and> renderMaterials img cam sc = Inr img2
           \<and> renderDiffuse img cam sc = Inr img3 \<and> renderWithShadows img cam sc = Inr img4
           \<and> (\<forall>qx qy r. in_image img qx qy
                  \<and> getRay cam (real_of_int qx) (real_of_int qy) (width img) (height img) = Inr r
                  \<and> fst (scene_intersect sc r 0.001) = False \<longrightarrow>
                    getPixel img1 qx qy = \<lparr>x = 0.5, y = 0.7, z = 1.0\<rparr>
                    \<and> getPixel img2 qx qy = \<lparr>x = 0.5, y = 0.7, z = 1.0\<rparr>
                    \<and> getPixel img3 qx qy = \<lparr>x = 0.5, y = 0.7, z = 1.0\<rparr>
                    \<and> getPixel img4 qx qy = \<lparr>x = 0.5, y = 0.7, z = 1.0\<rparr>)
           \<and> (spheres sc = [] \<longrightarrow>
                 (\<forall>qx qy. in_image img qx qy \<longrightarrow>
                    getPixel img1 qx qy = \<lparr>x = 0.5, y = 0.7, z = 1.0\<rparr>
                    \<and> getPixel img2 qx qy = \<lparr>x = 0.5, y = 0.7, z = 1.0\<rparr>
                    \<and> getPixel img3 qx qy = \<lparr>x = 0.5, y = 0.7, z = 1.0\<rparr>
                    \<and> getPixel img4 qx qy = \<lparr>x = 0.5, y = 0.7, z = 1.0\<rparr>))))"
proof -
  let ?bg = "\<lparr>x = 0.5, y = 0.7, z = 1.0 :: real\<rparr>"
  have pix: "renderDistance_color cam sc w h px py = Inr ?bg
        \<and> renderMaterials_color cam sc w h px py = Inr ?bg
        \<and> renderDiffuse_color cam sc w h px py = Inr ?bg
        \<and> renderWithShadows_color cam sc w h px py = Inr ?bg"
    if "getRay cam (real_of_int px) (real_of_int py) w h = Inr ray"
      "fst (scene_intersect sc ray 0.001) = False" for cam px py w h ray
  proof -
    from that(2) obtain t idx where "scene_intersect sc ray 0.001 = (False, t, idx)"
      by (cases "scene_intersect sc ray 0.001") auto
    from color_miss [OF that(1) this] show ?thesis
      by simp
  qed
  have image: "\<exists>img1 img2 img3 img4.
           renderDistance img cam sc = Inr img1 \<and> renderMaterials img cam sc = Inr img2
           \<and> renderDiffuse img cam sc = Inr img3 \<and> renderWithShadows img cam sc = Inr img4
           \<and> (\<forall>qx qy r. in_image img qx qy
                  \<and> getRay cam (real_of_int qx) (real_of_int qy) (width img) (height img) = Inr r
                  \<and> fst (scene_intersect sc r 0.001) = False \<longrightarrow>
                    getPixel img1 qx qy = ?bg \<and> getPixel img2 qx qy = ?bg
                    \<and> getPixel img3 qx qy = ?bg \<and> getPixel img4 qx qy = ?bg)
           \<and> (spheres sc = [] \<longrightarrow>
                 (\<forall>qx qy. in_image img qx qy \<longrightarrow>
                    getPixel img1 qx qy = ?bg \<and> getPixel img2 qx qy = ?bg
                    \<and> getPixel img3 qx qy = ?bg \<and> getPixel img4 qx qy = ?bg))"
    if wf: "wf_image img"
  proof -
    from render_image [OF wf, of cam sc]
    obtain img1 img2 img3 img4 where
      r: "renderDistance img cam sc = Inr img1" "renderMaterials img cam sc = Inr img2"
        "renderDiffuse img cam sc = Inr img3" "renderWithShadows img cam sc = Inr img4"
      and p1: "\<And>qx qy. in_image img qx qy \<Longrightarrow>
                 renderDistance_color cam sc (width img) (height img) qx qy
                   = Inr (getPixel img1 qx qy)"
      and p2: "\<And>qx qy. in_image img qx qy \<Longrightarrow>
                 renderMaterials_color cam sc (width img) (height img) qx qy
                   = Inr (getPixel img2 qx qy)"
      and p3: "\<And>qx qy. in_image img qx qy \<Longrightarrow>
                 renderDiffuse_color cam sc (width img) (height img) qx qy
                   = Inr (getPixel img3 qx qy)"
      and p4: "\<And>qx qy. in_image img qx qy \<Longrightarrow>
                 renderWithShadows_color cam sc (width img) (height img) qx qy
                   = Inr (getPixel img4 qx qy)"
      by blast
    have m: "getPixel img1 qx qy = ?bg \<and> getPixel img2 qx qy = ?bg
                    \<and> getPixel img3 qx qy = ?bg \<and> getPixel img4 qx qy = ?bg"
      if "in_image img qx qy"
        "getRay cam (real_of_int qx) (real_of_int qy) (width img) (height img) = Inr r"
        "fst (scene_intersect sc r 0.001) = False" for qx qy r
      using pix [OF that(2,3)] p1 [OF that(1)] p2 [OF that(1)] p3 [OF that(1)] p4 [OF that(1)]
      by simp
    have e: "getPixel img1 qx qy = ?bg \<and> getPixel img2 qx qy = ?bg
                    \<and> getPixel img3 qx qy = ?bg \<and> getPixel img4 qx qy = ?bg"
      if "spheres sc = []" "in_image img qx qy" for qx qy
    proof -
      from in_image_nonzero [OF that(2)]
      obtain r where "getRay cam (real_of_int qx) (real_of_int qy) (width img) (height img) = Inr r"
        by (auto simp: getRay_eq)
      moreover have "fst (scene_intersect sc r 0.001) = False"
        using that(1) by (simp add: scene_intersect_empty)
      ultimately show ?thesis
        using m [OF that(2)] by blast
    qed
    from r m e show ?thesis
      by blast
  qed
  from pix [of cam px py w h ray] image show ?thesis
    by blast
qed

lemma ex_getRay: "getRay ex_camera (real_of_int 400) (real_of_int 300) 800 600 = Inr ex_ray"
proof -
  have n: "ndc_x ex_camera 400 800 600 = 0" "ndc_y ex_camera 300 600 = 0"
    by (simp_all add: ndc_x_def ndc_y_def)
  have u: "unit_of \<lparr>x = 0, y = 0, z = - 1\<rparr> = \<lparr>x = 0, y = 0, z = - 1\<rparr>"
    by (simp add: unit_of_def vec_length_def Vec3_zero_def)
  have p: "Camera.position ex_camera = \<lparr>x = 0, y = 0, z = 5\<rparr>"
    by (simp add: ex_camera_def)
  show ?thesis
    by (simp add: getRay_eq n ex_camera_basis vec_add_def vec_scale_def u p ex_ray_def)
qed

lemma ex_hit_point: "ray_at ex_ray 4 = \<lparr>x = 0, y = 0, z = 1\<rparr>"
  by (simp add: ray_at_def ex_ray_def vec_add_def vec_scale_def)

lemma ex_shadow_front:
  "isInShadow ex_scene \<lparr>x = 0, y = 0, z = 1\<rparr> \<lparr>x = 0, y = 0, z = 5\<rparr> = Inr False"
  by (simp add: isInShadow_def mkRay_def normalize_def vec_length_def vec_div_def vec_sub_def
      scene_intersect_def scene_intersect_loop.simps sphere_intersect_def dbl_div_def dbl_ge_def
      dot_def ex_scene_def ex_sphere_def ex_sphere2_def Let_def)

lemma ex_shadow_back:
  "isInShadow ex_scene \<lparr>x = 0, y = 0, z = 1\<rparr> \<lparr>x = 0, y = 0, z = - 10\<rparr> = Inr True"
  by (simp add: isInShadow_def mkRay_def normalize_def vec_length_def vec_div_def vec_sub_def
      scene_intersect_def scene_intersect_loop.simps sphere_intersect_def dbl_div_def dbl_ge_def
      dot_def ex_scene_def ex_sphere_def ex_sphere2_def Let_def)

lemma ex_shade_all:
  "shade ex_scene (lights ex_scene) ex_sphere2 \<lparr>x = 0, y = 0, z = 1\<rparr>
     = \<lparr>x = 0.27, y = 0.9, z = 0.27\<rparr>"
  by (simp add: shade_def light_term_def vec_sum_def unit_of_def vec_length_def Vec3_zero_def
      vec_add_def vec_sub_def vec_mul_def vec_scale_def dot_def ex_scene_def ex_sphere2_def)


lemma ex_image: "wf_image (mkImage 800 600)" "in_image (mkImage 800 600) 400 300"
  "width (mkImage 800 600) = 800" "height (mkImage 800 600) = 600"
  by (simp_all add: wf_image_def in_image_def mkImage_def)

lemma ex_scene_nth:
  "spheres ex_scene ! Suc 0 = ex_sphere2"
  "Light.position (lights ex_scene ! 0) = \<lparr>x = 0, y = 0, z = 5\<rparr>"
  "Light.position (lights ex_scene ! Suc 0) = \<lparr>x = 0, y = 0, z = - 10\<rparr>"
  by (simp_all add: ex_scene_def)

lemma isInShadow_lights_update: "isInShadow (sc\<lparr>lights := ls\<rparr>) p l = isInShadow sc p l"
  by (simp add: isInShadow_eq scene_intersect_lights_update)

theorem renderDiffuse_color_formula_witness:
  "getRay ex_camera (real_of_int 400) (real_of_int 300) 800 600 = Inr ex_ray
   \<and> fst (scene_intersect ex_scene ex_ray 0.001)
   \<and> renderDiffuse_color ex_camera ex_scene 800 600 400 300 = Inr \<lparr>x = 0.27, y = 0.9, z = 0.27\<rparr>
   \<and> dot (unit_of (vec_sub (ray_at ex_ray 4) (center ex_sphere2)))
          (unit_of (vec_sub (Light.position (lights ex_scene ! 1)) (ray_at ex_ray 4))) < 0
   \<and> wf_image (mkImage 800 600) \<and> in_image (mkImage 800 600) 400 300
   \<and> (\<exists>img'. renderDiffuse (mkImage 800 600) ex_camera ex_scene = Inr img'
          \<and> getPixel img' 400 300 = \<lparr>x = 0.27, y = 0.9, z = 0.27\<rparr>)"
proof -
  have h: "fst (scene_intersect ex_scene ex_ray 0.001)"
    using ex_scene_intersect by simp
  let ?c = "\<lambda>t k. shade ex_scene (lights ex_scene) (spheres ex_scene ! k) (ray_at ex_ray t)"
  from renderDiffuse_color_formula [OF ex_getRay h]
  obtain t k where tk: "scene_intersect ex_scene ex_ray 0.001 = (True, Fin t, int k)"
    and col: "renderDiffuse_color ex_camera ex_scene 800 600 400 300 = Inr (?c t k)"
    and img: "\<forall>img. wf_image img \<and> in_image img 400 300 \<and> width img = 800 \<and> height img = 600 \<longrightarrow>
                 (\<exists>img'. renderDiffuse img ex_camera ex_scene = Inr img'
                    \<and> getPixel img' 400 300 = ?c t k)"
    unfolding Let_def shade_def by blast
  from tk ex_scene_intersect have t: "t = 4" and k: "k = 1"
    by simp_all
  have c: "?c t k = \<lparr>x = 0.27, y = 0.9, z = 0.27\<rparr>"
    using ex_shade_all by (simp add: t k ex_scene_nth ex_hit_point)
  have bf: "dot (unit_of (vec_sub (ray_at ex_ray 4) (center ex_sphere2)))
          (unit_of (vec_sub (Light.position (lights ex_scene ! 1)) (ray_at ex_ray 4))) < 0"
    by (simp add: ex_hit_point ex_scene_nth)
       (simp add: unit_of_def vec_length_def Vec3_zero_def vec_sub_def dot_def ex_sphere2_def)
  from img ex_image
  have "\<exists>img'. renderDiffuse (mkImage 800 600) ex_camera ex_scene = Inr img'
          \<and> getPixel img' 400 300 = ?c t k"
    by blast
  with ex_getRay h col c bf ex_image show ?thesis
    by simp
qed

theorem renderWithShadows_refines_renderDiffuse_witness:
  "getRay ex_camera (real_of_int 400) (real_of_int 300) 800 600 = Inr ex_ray
   \<and> scene_intersect ex_scene ex_ray 0.001 = (True, Fin 4, 1)
   \<and> isInShadow ex_scene (ray_at ex_ray 4) (Light.position (lights ex_scene ! 0)) = Inr False
   \<and> isInShadow ex_scene (ray_at ex_ray 4) (Light.position (lights ex_scene ! 1)) = Inr True
   \<and> renderWithShadows_color ex_camera ex_scene 800 600 400 300
       = renderDiffuse_color ex_camera (ex_scene\<lparr>lights := [lights ex_scene ! 0]\<rparr>) 800 600 400 300
   \<and> renderWithShadows_color ex_camera (ex_scene\<lparr>lights := [lights ex_scene ! 0]\<rparr>) 800 600 400 300
       = renderDiffuse_color ex_camera (ex_scene\<lparr>lights := [lights ex_scene ! 0]\<rparr>) 800 600 400 300
   \<and> wf_image (mkImage 800 600) \<and> in_image (mkImage 800 600) 400 300
   \<and> (\<exists>img1 img2. renderDiffuse (mkImage 800 600) ex_camera ex_scene = Inr img1
          \<and> renderWithShadows (mkImage 800 600) ex_camera ex_scene = Inr img2
          \<and> renderDiffuse_color ex_camera ex_scene 800 600 400 300 = Inr (getPixel img1 400 300)
          \<and> renderWithShadows_color ex_camera ex_scene 800 600 400 300
              = Inr (getPixel img2 400 300))"
proof -
  let ?one = "ex_scene\<lparr>lights := [lights ex_scene ! 0]\<rparr>"
  let ?hp = "ray_at ex_ray 4"
  have sh: "isInShadow ex_scene ?hp (Light.position (lights ex_scene ! 0)) = Inr False"
    "isInShadow ex_scene ?hp (Light.position (lights ex_scene ! 1)) = Inr True"
    using ex_shadow_front ex_shadow_back by (simp_all add: ex_hit_point ex_scene_nth)
  have un: "filter (\<lambda>l. isInShadow ex_scene ?hp (Light.position l) = Inr False) (lights ex_scene)
              = [lights ex_scene ! 0]"
    using ex_shadow_front ex_shadow_back by (simp add: ex_hit_point ex_scene_def)
  note inst = renderWithShadows_refines_renderDiffuse [OF ex_getRay]
  have a: "renderWithShadows_color ex_camera ex_scene 800 600 400 300
       = renderDiffuse_color ex_camera ?one 800 600 400 300"
    using inst [of ex_scene] ex_scene_intersect un
    by (auto simp: Let_def)
  have hit1: "scene_intersect ?one ex_ray 0.001 = (True, Fin 4, 1)"
    using ex_scene_intersect by (simp add: scene_intersect_lights_update)
  have all1: "\<forall>l \<in> set (lights ?one). isInShadow ?one ?hp (Light.position l) = Inr False"
    using sh(1) by (simp add: isInShadow_lights_update)
  have b: "renderWithShadows_color ex_camera ?one 800 600 400 300
       = renderDiffuse_color ex_camera ?one 800 600 400 300"
    using inst [of ?one] hit1 all1
    by (auto simp: Let_def)
  have c: "\<exists>img1 img2. renderDiffuse (mkImage 800 600) ex_camera ex_scene = Inr img1
          \<and> renderWithShadows (mkImage 800 600) ex_camera ex_scene = Inr img2
          \<and> renderDiffuse_color ex_camera ex_scene 800 600 400 300 = Inr (getPixel img1 400 300)
          \<and> renderWithShadows_color ex_camera ex_scene 800 600 400 300
              = Inr (getPixel img2 400 300)"
    using inst [of ex_scene] ex_image by blast
  from ex_getRay ex_scene_intersect sh a b c ex_image show ?thesis
    by simp
qed

theorem background_on_miss_witness:
  "getRay ex_camera (real_of_int 400) (real_of_int 300) 800 600 = Inr ex_ray
   \<and> fst (scene_intersect (ex_scene\<lparr>spheres := []\<rparr>) ex_ray 0.001) = False
   \<and> renderDistance_color ex_camera (ex_scene\<lparr>spheres := []\<rparr>) 800 600 400 300
       = Inr \<lparr>x = 0.5, y = 0.7, z = 1.0\<rparr>
   \<and> renderMaterials_color ex_camera (ex_scene\<lparr>spheres := []\<rparr>) 800 600 400 300
       = Inr \<lparr>x = 0.5, y = 0.7, z = 1.0\<rparr>
   \<and> renderDiffuse_color ex_camera (ex_scene\<lparr>spheres := []\<rparr>) 800 600 400 300
       = Inr \<lparr>x = 0.5, y = 0.7, z = 1.0\<rparr>
   \<and> renderWithShadows_color ex_camera (ex_scene\<lparr>spheres := []\<rparr>) 800 600 400 300
       = Inr \<lparr>x = 0.5, y = 0.7, z = 1.0\<rparr>
   \<and> wf_image (mkImage 800 600) \<and> in_image (mkImage 800 600) 400 300
   \<and> (\<exists>img1 img2 img3 img4.
         renderDistance (mkImage 800 600) ex_camera (ex_scene\<lparr>spheres := []\<rparr>) = Inr img1
         \<and> renderMaterials (mkImage 800 600) ex_camera (ex_scene\<lparr>spheres := []\<rparr>) = Inr img2
         \<and> renderDiffuse (mkImage 800 600) ex_camera (ex_scene\<lparr>spheres := []\<rparr>) = Inr img3
         \<and> renderWithShadows (mkImage 800 600) ex_camera (ex_scene\<lparr>spheres := []\<rparr>) = Inr img4
         \<and> getPixel img1 400 300 = \<lparr>x = 0.5, y = 0.7, z = 1.0\<rparr>
         \<and> getPixel img2 400 300 = \<lparr>x = 0.5, y = 0.7, z = 1.0\<rparr>
         \<and> getPixel img3 400 300 = \<lparr>x = 0.5, y = 0.7, z = 1.0\<rparr>
         \<and> getPixel img4 400 300 = \<lparr>x = 0.5, y = 0.7, z = 1.0\<rparr>)"
proof -
  let ?sc = "ex_scene\<lparr>spheres := []\<rparr>"
  have e: "spheres ?sc = []"
    by simp
  have m: "fst (scene_intersect ?sc ex_ray 0.001) = False"
    by (simp add: scene_intersect_empty)
  note inst = background_on_miss [of ex_camera 400 300 800 600 ex_ray ?sc "mkImage 800 600"]
  from inst ex_getRay m
  have pix: "renderDistance_color ex_camera ?sc 800 600 400 300 = Inr \<lparr>x = 0.5, y = 0.7, z = 1.0\<rparr>
   \<and> renderMaterials_color ex_camera ?sc 800 600 400 300 = Inr \<lparr>x = 0.5, y = 0.7, z = 1.0\<rparr>
   \<and> renderDiffuse_color ex_camera ?sc 800 600 400 300 = Inr \<lparr>x = 0.5, y = 0.7, z = 1.0\<rparr>
   \<and> renderWithShadows_color ex_camera ?sc 800 600 400 300 = Inr \<lparr>x = 0.5, y = 0.7, z = 1.0\<rparr>"
    by blast
  from inst ex_image(1)
  obtain img1 img2 img3 img4 where
    r: "renderDistance (mkImage 800 600) ex_camera ?sc = Inr img1"
      "renderMaterials (mkImage 800 600) ex_camera ?sc = Inr img2"
      "renderDiffuse (mkImage 800 600) ex_camera ?sc = Inr img3"
      "renderWithShadows (mkImage 800 600) ex_camera ?sc = Inr img4"
    and p: "spheres ?sc = [] \<longrightarrow>
                 (\<forall>qx qy. in_image (mkImage 800 600) qx qy \<longrightarrow>
                    getPixel img1 qx qy = \<lparr>x = 0.5, y = 0.7, z = 1.0\<rparr>
                    \<and> getPixel img2 qx qy = \<lparr>x = 0.5, y = 0.7, z = 1.0\<rparr>
                    \<and> getPixel img3 qx qy = \<lparr>x = 0.5, y = 0.7, z = 1.0\<rparr>
                    \<and> getPixel img4 qx qy = \<lparr>x = 0.5, y = 0.7, z = 1.0\<rparr>)"
    by blast
  from p e ex_image(2)
  have "getPixel img1 400 300 = \<lparr>x = 0.5, y = 0.7, z = 1.0\<rparr>
         \<and> getPixel img2 400 300 = \<lparr>x = 0.5, y = 0.7, z = 1.0\<rparr>
         \<and> getPixel img3 400 300 = \<lparr>x = 0.5, y = 0.7, z = 1.0\<rparr>
         \<and> getPixel img4 400 300 = \<lparr>x = 0.5, y = 0.7, z = 1.0\<rparr>"
    by blast
  with r have "\<exists>img1 img2 img3 img4.
         renderDistance (mkImage 800 600) ex_camera ?sc = Inr img1
         \<and> renderMaterials (mkImage 800 600) ex_camera ?sc = Inr img2
         \<and> renderDiffuse (mkImage 800 600) ex_camera ?sc = Inr img3
         \<and> renderWithShadows (mkImage 800 600) ex_camera ?sc = Inr img4
         \<and> getPixel img1 400 300 = \<lparr>x = 0.5, y = 0.7, z = 1.0\<rparr>
         \<and> getPixel img2 400 300 = \<lparr>x = 0.5, y = 0.7, z = 1.0\<rparr>
         \<and> getPixel img3 400 300 = \<lparr>x = 0.5, y = 0.7, z = 1.0\<rparr>
         \<and> getPixel img4 400 300 = \<lparr>x = 0.5, y = 0.7, z = 1.0\<rparr>"
    by blast
  with ex_getRay m pix ex_image(1,2) show ?thesis
    by blast
qed

section \<open>Doubles with their range: facts\<close>

lemma dbl_bounds: "0 < dbl_under" "dbl_under < 1 / 2 ^ 20" "2 ^ 20 < dbl_over"
  by (simp_all add: dbl_under_def dbl_over_def)

lemma rnd_0: "rnd 0 = Fin 0"
  using dbl_bounds by (simp add: rnd_def)

lemma rnd_mid: "1 / 2 ^ 20 \<le> \<bar>r\<bar> \<Longrightarrow> \<bar>r\<bar> \<le> 2 ^ 20 \<Longrightarrow> rnd r = Fin r"
  using dbl_bounds by (auto simp: rnd_def)

lemma ex_huge_sq: "dbl_over \<le> ex_huge * ex_huge" "0 < ex_huge"
  by (simp_all add: dbl_over_def ex_huge_def)


lemma dbl_under_over: "dbl_under < 1" "1 < dbl_over" "dbl_under < dbl_over"
  "dbl_over * dbl_under \<le> 1"
  by (simp_all add: dbl_under_def dbl_over_def)

lemma rnd_nonneg:
  assumes "0 \<le> r" "r = 0 \<or> dbl_under < r"
  shows "rnd r = (if dbl_over \<le> r then PInf else Fin r)"
  using assms dbl_bounds(1) dbl_under_over(2) by (auto simp: rnd_def)

lemma flushed_sq_range:
  "0 \<le> flushed_sq c" "flushed_sq c = 0 \<or> dbl_under < flushed_sq c" "flushed_sq c \<le> c * c"
  using dbl_bounds(1) by (auto simp: flushed_sq_def)

lemma rnd_sq: "rnd (c * c) = (if dbl_over \<le> c * c then PInf else Fin (flushed_sq c))"
proof -
  have "0 \<le> c * c"
    by simp
  with dbl_under_over(2) have "\<not> c * c \<le> - dbl_over" "\<bar>c * c\<bar> = c * c"
    by linarith+
  then show ?thesis
    by (simp add: rnd_def flushed_sq_def)
qed

lemma flushed_sq_over: "dbl_over \<le> c * c \<longleftrightarrow> dbl_over \<le> flushed_sq c"
  using dbl_under_over(3) dbl_bounds(1) dbl_under_over(2) by (auto simp: flushed_sq_def)

lemma sqrt_between:
  assumes "0 \<le> s"
  shows "s \<le> 1 \<Longrightarrow> s \<le> sqrt s" and "1 \<le> s \<Longrightarrow> sqrt s \<le> s"
proof -
  have sq: "sqrt s * sqrt s = s"
    using assms by simp
  have nn: "0 \<le> sqrt s"
    using assms by simp
  show "s \<le> sqrt s" if "s \<le> 1"
  proof -
    from that have "sqrt s \<le> 1"
      by simp
    then have "sqrt s * sqrt s \<le> sqrt s * 1"
      using nn by (intro mult_left_mono) simp_all
    with sq show ?thesis by simp
  qed
  show "sqrt s \<le> s" if "1 \<le> s"
  proof -
    from that have "1 \<le> sqrt s"
      by simp
    then have "sqrt s * 1 \<le> sqrt s * sqrt s"
      using nn by (intro mult_left_mono) simp_all
    with sq show ?thesis by simp
  qed
qed

lemma rnd_sqrt:
  assumes "0 \<le> s" "s = 0 \<or> dbl_under < s" "s < dbl_over"
  shows "rnd (sqrt s) = Fin (sqrt s)"
proof (cases "s = 0")
  case True
  then show ?thesis by (simp add: rnd_0)
next
  case False
  with assms have pos: "dbl_under < s"
    by simp
  have nn: "0 \<le> sqrt s"
    using assms(1) by simp
  have lo: "dbl_under < sqrt s"
  proof (cases "s \<le> 1")
    case True
    from sqrt_between(1) [OF assms(1) True] pos show ?thesis by linarith
  next
    case False
    then have "1 \<le> sqrt s"
      by simp
    with dbl_under_over(1) show ?thesis by linarith
  qed
  have hi: "sqrt s < dbl_over"
  proof (cases "s \<le> 1")
    case True
    then have "sqrt s \<le> 1"
      by simp
    with dbl_under_over(2) show ?thesis by linarith
  next
    case False
    then have "1 \<le> s" by simp
    from sqrt_between(2) [OF assms(1) this] assms(3) show ?thesis by linarith
  qed
  from lo hi nn have "\<not> dbl_over \<le> sqrt s" "\<not> sqrt s \<le> - dbl_over" "\<not> \<bar>sqrt s\<bar> \<le> dbl_under"
    by linarith+
  then show ?thesis
    by (simp add: rnd_def)
qed


lemma computed_sq_sum_range:
  "0 \<le> computed_sq_sum v" "computed_sq_sum v = 0 \<or> dbl_under < computed_sq_sum v"
  using flushed_sq_range(1,2) [of "x v"] flushed_sq_range(1,2) [of "y v"]
    flushed_sq_range(1,2) [of "z v"]
  by (auto simp: computed_sq_sum_def)

lemma length_fp_eq:
  "length_fp (to_fp v) =
     (if dbl_over \<le> computed_sq_sum v then PInf else Fin (sqrt (computed_sq_sum v)))"
proof -
  let ?a = "flushed_sq (x v)" and ?b = "flushed_sq (y v)" and ?c = "flushed_sq (z v)"
  note r = flushed_sq_range(1,2)
  have ab: "0 \<le> ?a + ?b" "?a + ?b = 0 \<or> dbl_under < ?a + ?b"
    using r [of "x v"] r [of "y v"] by auto
  have sx: "rnd (x v * x v) = (if dbl_over \<le> ?a then PInf else Fin ?a)"
    and sy: "rnd (y v * y v) = (if dbl_over \<le> ?b then PInf else Fin ?b)"
    and sz: "rnd (z v * z v) = (if dbl_over \<le> ?c then PInf else Fin ?c)"
    by (simp_all add: rnd_sq flushed_sq_over)
  have abc: "0 \<le> ?a + ?b + ?c" "?a + ?b + ?c = 0 \<or> dbl_under < ?a + ?b + ?c"
    using ab r [of "z v"] by auto
  have s1: "rnd (?a + ?b) = (if dbl_over \<le> ?a + ?b then PInf else Fin (?a + ?b))"
    using ab by (rule rnd_nonneg)
  have s2: "rnd (?a + ?b + ?c) = (if dbl_over \<le> ?a + ?b + ?c then PInf else Fin (?a + ?b + ?c))"
    using abc by (rule rnd_nonneg)
  show ?thesis
  proof (cases "dbl_over \<le> computed_sq_sum v")
    case False
    then have "\<not> dbl_over \<le> ?a" "\<not> dbl_over \<le> ?b" "\<not> dbl_over \<le> ?c" "\<not> dbl_over \<le> ?a + ?b"
      using r(1) [of "x v"] r(1) [of "y v"] r(1) [of "z v"]
      by (auto simp: computed_sq_sum_def)
    moreover have "rnd (sqrt (computed_sq_sum v)) = Fin (sqrt (computed_sq_sum v))"
      using computed_sq_sum_range [of v] False by (intro rnd_sqrt) auto
    ultimately show ?thesis
      using False computed_sq_sum_range(1) [of v]
      by (simp add: length_fp_def to_fp_def sx sy sz s1 s2)
         (simp add: computed_sq_sum_def)
  next
    case True
    have "dadd (dadd (dmul (Fin (x v)) (Fin (x v))) (dmul (Fin (y v)) (Fin (y v))))
            (dmul (Fin (z v)) (Fin (z v))) = PInf"
      using True by (auto simp: sx sy sz s1 s2 computed_sq_sum_def)
    with True show ?thesis
      by (simp add: length_fp_def to_fp_def)
  qed
qed


lemma normalize_fp_eq:
  "normalize_fp (to_fp v) =
     (if computed_sq_sum v = 0 \<or> dbl_over \<le> computed_sq_sum v
      then \<lparr>fx = Fin 0, fy = Fin 0, fz = Fin 0\<rparr>
      else \<lparr>fx = rnd (x v / sqrt (computed_sq_sum v)),
            fy = rnd (y v / sqrt (computed_sq_sum v)),
            fz = rnd (z v / sqrt (computed_sq_sum v))\<rparr>)"
proof -
  consider (zero) "computed_sq_sum v = 0" | (inf) "dbl_over \<le> computed_sq_sum v"
    | (fin) "computed_sq_sum v \<noteq> 0" "\<not> dbl_over \<le> computed_sq_sum v"
    by blast
  then show ?thesis
  proof cases
    case zero
    with dbl_under_over(2) have "\<not> dbl_over \<le> computed_sq_sum v"
      by simp
    with zero show ?thesis
      by (simp add: normalize_fp_def length_fp_eq Let_def)
  next
    case inf
    then show ?thesis
      by (simp add: normalize_fp_def length_fp_eq Let_def) (simp add: div_fp_def to_fp_def)
  next
    case fin
    with computed_sq_sum_range(1) [of v] have "0 < sqrt (computed_sq_sum v)"
      by simp
    with fin show ?thesis
      by (simp add: normalize_fp_def length_fp_eq Let_def) (simp add: div_fp_def to_fp_def)
  qed
qed





lemma in_range_sum:
  assumes "in_range v"
  shows "computed_sq_sum v = x v * x v + y v * y v + z v * z v"
    and "computed_sq_sum v < dbl_over"
proof -
  have "flushed_sq c = c * c" if "c = 0 \<or> dbl_under < c * c" for c
    using that by (auto simp: flushed_sq_def)
  with assms show "computed_sq_sum v = x v * x v + y v * y v + z v * z v"
    by (simp add: computed_sq_sum_def in_range_def)
  with assms show "computed_sq_sum v < dbl_over"
    by (simp add: in_range_def)
qed


lemma rnd_quot:
  assumes c: "dbl_under < c * c" and le: "c * c \<le> l * l" and l: "l * l < dbl_over" "0 < l"
  shows "rnd (c / l) = Fin (c / l)"
proof -
  have abs_le: "\<bar>c\<bar> \<le> l"
  proof -
    from le have "sqrt (c * c) \<le> sqrt (l * l)"
      by (rule real_sqrt_le_mono)
    with l(2) show ?thesis by simp
  qed
  then have le1: "\<bar>c / l\<bar> \<le> 1"
    using l(2) by simp
  have lo: "dbl_under < \<bar>c / l\<bar>"
  proof (rule ccontr)
    assume "\<not> dbl_under < \<bar>c / l\<bar>"
    then have "\<bar>c\<bar> \<le> dbl_under * l"
      using l(2) by (simp add: field_simps)
    then have "\<bar>c\<bar> * \<bar>c\<bar> \<le> (dbl_under * l) * (dbl_under * l)"
      by (intro mult_mono) (use dbl_bounds(1) l(2) in simp_all)
    then have "c * c \<le> dbl_under * dbl_under * (l * l)"
      by (simp add: algebra_simps)
    also have "\<dots> \<le> dbl_under * dbl_under * dbl_over"
      using l(1) dbl_bounds(1) by (intro mult_left_mono) simp_all
    also have "\<dots> = dbl_under * (dbl_over * dbl_under)"
      by (simp add: algebra_simps)
    also have "\<dots> \<le> dbl_under * 1"
      using dbl_under_over(4) dbl_bounds(1) by (intro mult_left_mono) simp_all
    finally show False
      using c by simp
  qed
  from le1 lo dbl_under_over(2)
  have "\<not> dbl_over \<le> c / l" "\<not> c / l \<le> - dbl_over" "\<not> \<bar>c / l\<bar> \<le> dbl_under"
    by linarith+
  then show ?thesis
    by (simp add: rnd_def)
qed

lemma normalize_fp_in_range:
  assumes "in_range v"
  shows "normalize_fp (to_fp v) = to_fp (unit_of v)"
proof (cases "v = Vec3_zero")
  case True
  then have "computed_sq_sum v = 0"
    using dbl_bounds(1) by (simp add: computed_sq_sum_def flushed_sq_def Vec3_zero_def)
  with True show ?thesis
    by (simp add: normalize_fp_eq unit_of_def) (simp add: to_fp_def Vec3_zero_def)
next
  case False
  let ?l = "vec_length v"
  have pos: "0 < ?l"
    using False by (simp add: vec_length_pos_iff)
  have sq: "?l * ?l = x v * x v + y v * y v + z v * z v"
    by (simp add: vec_length_sq dot_def)
  have s: "computed_sq_sum v = ?l * ?l" "?l * ?l < dbl_over"
    using in_range_sum [OF assms] sq by simp_all
  have l: "sqrt (computed_sq_sum v) = ?l"
    using in_range_sum(1) [OF assms] by (simp add: vec_length_def)
  have q: "rnd (c / ?l) = Fin (c / ?l)" if "c = 0 \<or> dbl_under < c * c" "c * c \<le> ?l * ?l" for c
  proof (cases "c = 0")
    case True
    then show ?thesis by (simp add: rnd_0)
  next
    case False
    with that have "dbl_under < c * c" by simp
    then show ?thesis
      using that(2) s(2) pos by (rule rnd_quot)
  qed
  have "x v * x v \<le> ?l * ?l" "y v * y v \<le> ?l * ?l" "z v * z v \<le> ?l * ?l"
    by (simp_all add: sq)
  with assms have "rnd (x v / ?l) = Fin (x v / ?l)" "rnd (y v / ?l) = Fin (y v / ?l)"
    "rnd (z v / ?l) = Fin (z v / ?l)"
    by (simp_all add: in_range_def q)
  moreover have "computed_sq_sum v \<noteq> 0" "\<not> dbl_over \<le> computed_sq_sum v"
    using s pos by simp_all
  ultimately show ?thesis
    using False by (simp add: normalize_fp_eq l unit_of_def) (simp add: to_fp_def)
qed



















lemma sphere_intersect_fp_Some:
  "sphere_intersect_fp s ray tMin tMax = Some t \<Longrightarrow> dbl_ge t tMin \<and> dbl_le t tMax"
  by (auto simp: sphere_intersect_fp_def Let_def split: if_splits)

lemma scene_intersect_fp_loop_result:
  assumes "scene_intersect_fp_loop sphs ray tMin i tC idx = (tC', idx')"
  shows "(tC' = tC \<and> idx' = idx)
       \<or> (\<exists>k. i \<le> k \<and> k < length sphs \<and> idx' = int k \<and> dbl_ge tC' tMin)"
  using assms
proof (induction sphs ray tMin i tC idx rule: scene_intersect_fp_loop.induct)
  case (1 sphs ray tMin i tC idx)
  show ?case
  proof (cases "i < length sphs")
    case False
    with "1.prems" show ?thesis
      by (simp add: scene_intersect_fp_loop.simps [of sphs ray tMin i tC idx])
  next
    case inb: True
    show ?thesis
    proof (cases "sphere_intersect_fp (sphs ! i) ray tMin tC")
      case None
      with inb "1.prems"
      have rec: "scene_intersect_fp_loop sphs ray tMin (i + 1) tC idx = (tC', idx')"
        by (simp add: scene_intersect_fp_loop.simps [of sphs ray tMin i tC idx])
      from "1.IH"(1) [OF inb None rec] show ?thesis
        by auto
    next
      case (Some t)
      with inb "1.prems"
      have rec: "scene_intersect_fp_loop sphs ray tMin (i + 1) t (int i) = (tC', idx')"
        by (simp add: scene_intersect_fp_loop.simps [of sphs ray tMin i tC idx])
      from sphere_intersect_fp_Some [OF Some] have ge: "dbl_ge t tMin"
        by simp
      from "1.IH"(2) [OF inb Some rec] show ?thesis
      proof
        assume "tC' = t \<and> idx' = int i"
        with ge inb show ?thesis
          by (intro disjI2 exI [of _ i]) simp
      next
        assume "\<exists>k. i + 1 \<le> k \<and> k < length sphs \<and> idx' = int k \<and> dbl_ge tC' tMin"
        then show ?thesis
          by auto
      qed
    qed
  qed
qed

lemma dbl_ge_Fin: "dbl_ge t (Fin m) \<Longrightarrow> (\<exists>r. t = Fin r \<and> m \<le> r) \<or> t = PInf"
  by (cases t) (simp_all add: dbl_ge_def)

lemma dbl_ge_not_NaN: "dbl_ge t m \<Longrightarrow> t \<noteq> NaN \<and> dbl_le t PInf"
  by (cases t; cases m) (simp_all add: dbl_ge_def)

lemma rnd_huge: "rnd (ex_huge * ex_huge) = PInf"
  using ex_huge_sq(1) by (simp add: rnd_def)

lemma ex_huge_sphere_hit:
  "sphere_intersect_fp ex_huge_sphere_fp ex_ray_fp (Fin 0.001) PInf = Some PInf"
  by (simp add: sphere_intersect_fp_def ex_huge_sphere_fp_def ex_ray_fp_def to_fp_def sub_fp_def
      dot_fp_def dsub_def dbl_ge_def Let_def rnd_0 rnd_mid rnd_huge)

lemma ex_unit_sphere_hit:
  "sphere_intersect_fp ex_unit_sphere_fp ex_ray_fp (Fin 0.001) PInf = Some (Fin 4)"
  by (simp add: sphere_intersect_fp_def ex_unit_sphere_fp_def ex_ray_fp_def to_fp_def sub_fp_def
      dot_fp_def dsub_def dbl_ge_def Let_def rnd_0 rnd_mid)

lemma ex_huge_scene_intersect:
  "scene_intersect_fp [ex_huge_sphere_fp] ex_ray_fp (Fin 0.001) = (True, PInf, 0)"
  using ex_huge_sphere_hit
  by (simp add: scene_intersect_fp_def scene_intersect_fp_loop.simps)

lemma ex_unit_scene_intersect:
  "scene_intersect_fp [ex_unit_sphere_fp] ex_ray_fp (Fin 0.001) = (True, Fin 4, 0)"
  using ex_unit_sphere_hit
  by (simp add: scene_intersect_fp_def scene_intersect_fp_loop.simps)


lemma ex_ray_fp_built:
  "mkRay_fp (to_fp \<lparr>x = 0, y = 0, z = 5\<rparr>) (to_fp \<lparr>x = 0, y = 0, z = - 1\<rparr>) = ex_ray_fp"
proof -
  have "in_range \<lparr>x = 0, y = 0, z = - 1\<rparr>"
    using dbl_bounds by (simp add: in_range_def)
  moreover have "unit_of \<lparr>x = 0, y = 0, z = - 1\<rparr> = \<lparr>x = 0, y = 0, z = - 1\<rparr>"
    by (simp add: unit_of_def vec_length_def Vec3_zero_def)
  ultimately show ?thesis
    by (simp add: mkRay_fp_def normalize_fp_in_range ex_ray_fp_def)
qed

text \<open>
  C10, as stated, fails on doubles. For the sphere of radius \<open>1e200\<close> at the origin,
  \<open>radius * radius\<close> overflows, so \<open>c\<close> is \<open>-\<infinity>\<close>, the discriminant and its root are \<open>+\<infinity>\<close>,
  and the second root, \<open>+\<infinity>\<close>, passes both range tests (\<open>+\<infinity> \<le> +\<infinity>\<close>): the scene query
  reports a hit whose distance is \<open>+\<infinity>\<close>, not less than \<open>+\<infinity>\<close>.
\<close>

theorem scene_intersect_fp_infinite_hit_counterexample:
  "radius_fp ex_huge_sphere_fp = Fin ex_huge \<and> ex_huge = 10 ^ 200
   \<and> mkRay_fp (to_fp \<lparr>x = 0, y = 0, z = 5\<rparr>) (to_fp \<lparr>x = 0, y = 0, z = - 1\<rparr>) = ex_ray_fp
   \<and> sphere_intersect_fp ex_huge_sphere_fp ex_ray_fp (Fin 0.001) PInf = Some PInf
   \<and> scene_intersect_fp [ex_huge_sphere_fp] ex_ray_fp (Fin 0.001) = (True, PInf, 0)
   \<and> \<not> dbl_less PInf PInf"
proof -
  have "ex_huge = 10 ^ 200"
    by (simp only: ex_huge_def)
  moreover have "radius_fp ex_huge_sphere_fp = Fin ex_huge"
    by (simp add: ex_huge_sphere_fp_def)
  ultimately show ?thesis
    using ex_ray_fp_built ex_huge_sphere_hit ex_huge_scene_intersect
    by simp
qed

text \<open>
  C10, amended. When the scene query reports a hit, the index it returns is a valid
  index of the scene's spheres, and the distance is not NaN and satisfies
  \<open>tMin \<le> tClosest \<le> +\<infinity>\<close>: it is a finite number of at least \<open>tMin\<close>, or \<open>+\<infinity>\<close>. When it
  reports no hit the index is \<open>-1\<close> and the distance is still \<open>+\<infinity>\<close>. This is on doubles
  with their range, for every list of spheres, every ray and every \<open>tMin\<close>, NaN and the
  infinities included. The render modes are those of the exact reading, where the
  scene query returns a valid index on a hit as well: the access \<open>spheres[sphereIdx]\<close>
  succeeds on the index of every reported hit, and the three render modes that index
  the spheres never do so out of range.
\<close>

theorem scene_intersect_fp_index_valid:
  assumes "scene_intersect_fp sphs ray tMin = (hit, tClosest, sphereIndex)"
  shows "(hit \<longrightarrow>
           0 \<le> sphereIndex \<and> sphereIndex < int (length sphs) \<and> nat sphereIndex < length sphs
           \<and> dbl_ge tClosest tMin \<and> tClosest \<noteq> NaN \<and> dbl_le tClosest PInf
           \<and> (\<forall>m. tMin = Fin m \<longrightarrow> (\<exists>r. tClosest = Fin r \<and> m \<le> r) \<or> tClosest = PInf))
    \<and> (\<not> hit \<longrightarrow> sphereIndex = - 1 \<and> tClosest = PInf)
    \<and> (fst (scene_intersect sc ray' tMin') \<longrightarrow>
          sphere_at sc (snd (snd (scene_intersect sc ray' tMin')))
            = Inr (spheres sc ! nat (snd (snd (scene_intersect sc ray' tMin')))))
    \<and> renderMaterials_color cam sc w h px py \<noteq> Inl OutOfBounds
    \<and> renderDiffuse_color cam sc w h px py \<noteq> Inl OutOfBounds
    \<and> renderWithShadows_color cam sc w h px py \<noteq> Inl OutOfBounds"
proof -
  obtain tC' idx' where
    loop: "scene_intersect_fp_loop sphs ray tMin 0 PInf (- 1) = (tC', idx')"
    by (cases "scene_intersect_fp_loop sphs ray tMin 0 PInf (- 1)")
  with assms have res: "hit = (idx' \<noteq> - 1)" "tClosest = tC'" "sphereIndex = idx'"
    by (auto simp: scene_intersect_fp_def)
  from scene_intersect_fp_loop_result [OF loop]
  have a: "(hit \<longrightarrow>
           0 \<le> sphereIndex \<and> sphereIndex < int (length sphs) \<and> nat sphereIndex < length sphs
           \<and> dbl_ge tClosest tMin \<and> tClosest \<noteq> NaN \<and> dbl_le tClosest PInf
           \<and> (\<forall>m. tMin = Fin m \<longrightarrow> (\<exists>r. tClosest = Fin r \<and> m \<le> r) \<or> tClosest = PInf))
    \<and> (\<not> hit \<longrightarrow> sphereIndex = - 1 \<and> tClosest = PInf)"
  proof
    assume "tC' = PInf \<and> idx' = - 1"
    with res show ?thesis
      by simp
  next
    assume "\<exists>k. 0 \<le> k \<and> k < length sphs \<and> idx' = int k \<and> dbl_ge tC' tMin"
    then obtain k where k: "k < length sphs" "idx' = int k" "dbl_ge tC' tMin"
      by blast
    from k(3) have "tC' \<noteq> NaN" "dbl_le tC' PInf"
      using dbl_ge_not_NaN by blast+
    moreover have "(\<exists>r. tC' = Fin r \<and> m \<le> r) \<or> tC' = PInf" if "tMin = Fin m" for m
      using k(3) that dbl_ge_Fin by simp
    ultimately show ?thesis
      using res k by simp
  qed
  have b: "fst (scene_intersect sc ray' tMin') \<longrightarrow>
          sphere_at sc (snd (snd (scene_intersect sc ray' tMin')))
            = Inr (spheres sc ! nat (snd (snd (scene_intersect sc ray' tMin'))))"
    using scene_intersect_shape [of sc ray' tMin']
    by (auto simp: sphere_at_def)
  have c: "renderMaterials_color cam sc w h px py \<noteq> Inl OutOfBounds
    \<and> renderDiffuse_color cam sc w h px py \<noteq> Inl OutOfBounds
    \<and> renderWithShadows_color cam sc w h px py \<noteq> Inl OutOfBounds"
  proof (cases "w = 0 \<or> h = 0")
    case True
    then show ?thesis
      by (simp add: color_zero_size)
  next
    case False
    then have "w \<noteq> 0" "h \<noteq> 0"
      by simp_all
    from color_total(2-4) [OF this, of cam sc px py] show ?thesis
      by auto
  qed
  from a b c show ?thesis
    by blast
qed

theorem scene_intersect_fp_index_valid_witness:
  "scene_intersect_fp [ex_unit_sphere_fp] ex_ray_fp (Fin 0.001) = (True, Fin 4, 0)
   \<and> (0 :: int) < int (length [ex_unit_sphere_fp])
   \<and> dbl_ge (Fin 4) (Fin 0.001) \<and> dbl_le (Fin 4) PInf
   \<and> scene_intersect_fp [ex_huge_sphere_fp] ex_ray_fp (Fin 0.001) = (True, PInf, 0)
   \<and> dbl_ge PInf (Fin 0.001)
   \<and> scene_intersect_fp [] ex_ray_fp (Fin 0.001) = (False, PInf, - 1)
   \<and> fst (scene_intersect ex_scene ex_ray 0.001)
   \<and> sphere_at ex_scene 1 = Inr ex_sphere2"
proof -
  have e: "scene_intersect_fp [] ex_ray_fp (Fin 0.001) = (False, PInf, - 1)"
    by (simp add: scene_intersect_fp_def scene_intersect_fp_loop.simps)
  have n: "spheres ex_scene ! nat 1 = ex_sphere2"
    by (simp add: ex_scene_def)
  have f: "fst (scene_intersect ex_scene ex_ray 0.001)"
    using ex_scene_intersect by simp
  have i: "snd (snd (scene_intersect ex_scene ex_ray 0.001)) = 1"
    using ex_scene_intersect by simp
  from scene_intersect_fp_index_valid [OF ex_unit_scene_intersect, of ex_scene ex_ray "0.001"]
  have "fst (scene_intersect ex_scene ex_ray 0.001) \<longrightarrow>
          sphere_at ex_scene (snd (snd (scene_intersect ex_scene ex_ray 0.001)))
            = Inr (spheres ex_scene ! nat (snd (snd (scene_intersect ex_scene ex_ray 0.001))))"
    by blast
  with f have s: "sphere_at ex_scene 1 = Inr ex_sphere2"
    by (simp only: i n)
  from scene_intersect_fp_index_valid [OF ex_huge_scene_intersect]
    scene_intersect_fp_index_valid [OF e]
    ex_unit_scene_intersect ex_huge_scene_intersect e f s
  show ?thesis
    by (simp add: dbl_ge_def)
qed

end
